theory Spec2Isabelle
  imports Complex_Main
begin

section \<open>Tensors in a store\<close>

text \<open>
  The notebooks compute on torch tensors. A tensor is a handle (storage address, offset,
  sizes, strides) on a flat storage; several handles may share one storage (\<open>u[i]\<close>,
  \<open>reshape\<close> and \<open>permute\<close> return views), and the operations whose name ends in an
  underscore overwrite the storage of the handle they are called on. The store is the list
  of all storages, a storage address is an index in it, and a new tensor is appended.

  Elements are real numbers, and every arithmetic primitive rounds its exact result with a
  function \<open>r\<close>, a parameter of the whole development: \<open>r = (\<lambda>x. x)\<close> is exact
  arithmetic, and a floating-point format of one precision is a rounding to its finite
  values. Infinities and NaN are not values of this store; the computations on values
  that may be infinite or NaN are in a section of their own below. All tensors of one run
  have the one element type and live in the one store: the element type and the device
  that \<open>torch.zeros\<close> chooses by default are not modelled.
\<close>

type_synonym heap = "real list list"

record tensor =
  stor :: nat
  offs :: nat
  sizes :: "nat list"
  strides :: "nat list"

datatype error = IndexError | ShapeError

text \<open>All multi-indices of a shape, in row-major order.\<close>

fun indices :: "nat list \<Rightarrow> nat list list" where
  "indices [] = [[]]"
| "indices (n # ns) = concat (map (\<lambda>i. map ((#) i) (indices ns)) [0..<n])"

definition pos :: "tensor \<Rightarrow> nat list \<Rightarrow> nat" where
  "pos t idx = offs t + sum_list (map2 (*) idx (strides t))"

definition get_at :: "heap \<Rightarrow> tensor \<Rightarrow> nat list \<Rightarrow> real" where
  "get_at h t idx = h ! stor t ! pos t idx"

text \<open>What \<open>torch.equal\<close> compares: the shape and the elements in row-major order.\<close>

definition contents :: "heap \<Rightarrow> tensor \<Rightarrow> nat list \<times> real list" where
  "contents h t = (sizes t, map (get_at h t) (indices (sizes t)))"

text \<open>A handle is well formed in a store when its storage exists and every index of its
  shape falls inside that storage.\<close>

definition wf_tensor :: "heap \<Rightarrow> tensor \<Rightarrow> bool" where
  "wf_tensor h t \<longleftrightarrow>
     stor t < length h \<and> length (strides t) = length (sizes t) \<and>
     list_all (\<lambda>idx. pos t idx < length (h ! stor t)) (indices (sizes t))"

fun cstrides :: "nat list \<Rightarrow> nat list" where
  "cstrides [] = []"
| "cstrides (n # ns) = prod_list ns # cstrides ns"

text \<open>A new tensor: contiguous, on a storage of its own.\<close>

definition alloc :: "nat list \<Rightarrow> real list \<Rightarrow> heap \<Rightarrow> tensor \<times> heap" where
  "alloc sz xs h = (\<lparr>stor = length h, offs = 0, sizes = sz, strides = cstrides sz\<rparr>, h @ [xs])"

text \<open>\<open>torch.zeros(*sz)\<close>\<close>

definition zeros :: "nat list \<Rightarrow> heap \<Rightarrow> tensor \<times> heap" where
  "zeros sz h = alloc sz (replicate (prod_list sz) 0) h"

text \<open>\<open>t.shape[0]\<close>: the shape of a 0-dimensional tensor is the empty tuple.\<close>

definition shape0 :: "tensor \<Rightarrow> error + nat" where
  "shape0 t = (case sizes t of [] \<Rightarrow> Inl IndexError | n # _ \<Rightarrow> Inr n)"

text \<open>\<open>t[i]\<close> for a non-negative \<open>i\<close>: a view on row \<open>i\<close>.\<close>

definition select :: "tensor \<Rightarrow> nat \<Rightarrow> error + tensor" where
  "select t i =
     (case sizes t of [] \<Rightarrow> Inl IndexError
      | n # ns \<Rightarrow>
         (case strides t of [] \<Rightarrow> Inl IndexError
          | s # ss \<Rightarrow>
             if i < n then Inr (t\<lparr>offs := offs t + i * s, sizes := ns, strides := ss\<rparr>)
             else Inl IndexError))"

text \<open>\<open>t.reshape(1, *t.shape)\<close>: a view with one more leading dimension of size 1.\<close>

definition reshape1 :: "tensor \<Rightarrow> tensor" where
  "reshape1 t =
     t\<lparr>sizes := 1 # sizes t,
       strides := (case (sizes t, strides t) of (n # _, s # _) \<Rightarrow> n * s | _ \<Rightarrow> 1) # strides t\<rparr>"

text \<open>\<open>t.permute(dims)\<close>: a view with the dimensions reordered.\<close>

definition permute :: "nat list \<Rightarrow> tensor \<Rightarrow> error + tensor" where
  "permute dims t =
     (if length dims = length (sizes t) \<and> distinct dims \<and>
         list_all (\<lambda>d. d < length (sizes t)) dims
      then Inr (t\<lparr>sizes := map ((!) (sizes t)) dims, strides := map ((!) (strides t)) dims\<rparr>)
      else Inl ShapeError)"

subsection \<open>Broadcasting\<close>

text \<open>Shapes are aligned at their last dimension; two sizes are compatible when they are
  equal or one of them is 1.\<close>

fun bshape_rev :: "nat list \<Rightarrow> nat list \<Rightarrow> nat list option" where
  "bshape_rev [] ys = Some ys"
| "bshape_rev (x # xs) [] = Some (x # xs)"
| "bshape_rev (x # xs) (y # ys) =
     (if x = y \<or> x = 1 \<or> y = 1
      then map_option ((#) (if x = 1 then y else x)) (bshape_rev xs ys)
      else None)"

definition bshape :: "nat list \<Rightarrow> nat list \<Rightarrow> nat list option" where
  "bshape xs ys = map_option rev (bshape_rev (rev xs) (rev ys))"

text \<open>The index at which a tensor of shape \<open>sz\<close> is read for the index \<open>idx\<close> of the
  broadcast shape.\<close>

definition bidx :: "nat list \<Rightarrow> nat list \<Rightarrow> nat list" where
  "bidx sz idx = map2 (\<lambda>s i. if s = 1 then 0 else i) sz (drop (length idx - length sz) idx)"

subsection \<open>Arithmetic primitives\<close>

definition t_sub :: "(real \<Rightarrow> real) \<Rightarrow> real \<Rightarrow> real \<Rightarrow> real" where
  "t_sub r x y = r (x - y)"

definition t_add :: "(real \<Rightarrow> real) \<Rightarrow> real \<Rightarrow> real \<Rightarrow> real" where
  "t_add r x y = r (x + y)"

definition t_pow :: "(real \<Rightarrow> real) \<Rightarrow> nat \<Rightarrow> real \<Rightarrow> real" where
  "t_pow r e x = r (x ^ e)"

definition t_sqrt :: "(real \<Rightarrow> real) \<Rightarrow> real \<Rightarrow> real" where
  "t_sqrt r x = r (sqrt x)"

definition t_mul :: "(real \<Rightarrow> real) \<Rightarrow> real \<Rightarrow> real \<Rightarrow> real" where
  "t_mul r x y = r (x * y)"

definition t_exp :: "(real \<Rightarrow> real) \<Rightarrow> real \<Rightarrow> real" where
  "t_exp r x = r (exp x)"

text \<open>A reduction by addition, left to right; the sum of no element is 0.\<close>

fun sum_red :: "(real \<Rightarrow> real) \<Rightarrow> real list \<Rightarrow> real" where
  "sum_red r [] = 0"
| "sum_red r (x # xs) = foldl (t_add r) x xs"

subsection \<open>Operations that return a new tensor\<close>

text \<open>\<open>a - b\<close>\<close>

definition sub :: "(real \<Rightarrow> real) \<Rightarrow> tensor \<Rightarrow> tensor \<Rightarrow> heap \<Rightarrow> error + tensor \<times> heap" where
  "sub r a b h =
     (case bshape (sizes a) (sizes b) of None \<Rightarrow> Inl ShapeError
      | Some sz \<Rightarrow>
          Inr (alloc sz
                 (map (\<lambda>idx. t_sub r (get_at h a (bidx (sizes a) idx))
                                      (get_at h b (bidx (sizes b) idx)))
                      (indices sz)) h))"

text \<open>\<open>t.sum(dim=d)\<close>\<close>

definition sum_dim :: "(real \<Rightarrow> real) \<Rightarrow> nat \<Rightarrow> tensor \<Rightarrow> heap \<Rightarrow> error + tensor \<times> heap" where
  "sum_dim r d t h =
     (if d < length (sizes t)
      then let sz = take d (sizes t) @ drop (Suc d) (sizes t)
           in Inr (alloc sz
                     (map (\<lambda>idx. sum_red r (map (\<lambda>k. get_at h t (take d idx @ k # drop d idx))
                                                 [0..<sizes t ! d]))
                          (indices sz)) h)
      else Inl IndexError)"

text \<open>\<open>torch.dist(a, b)\<close> is a function of the library: by its documentation the 2-norm of
  \<open>a - b\<close>, a 0-dimensional tensor. It is modelled as the square root of the sum of the
  squared differences, on the primitives above. The library's kernel may round otherwise
  than the chain \<open>pow_\<close>, \<open>sum\<close>, \<open>sqrt_\<close> of the vectorized computations; the model does
  not tell the two apart.\<close>

definition torch_dist :: "(real \<Rightarrow> real) \<Rightarrow> tensor \<Rightarrow> tensor \<Rightarrow> heap \<Rightarrow> error + tensor \<times> heap" where
  "torch_dist r a b h =
     (case bshape (sizes a) (sizes b) of None \<Rightarrow> Inl ShapeError
      | Some sz \<Rightarrow>
          Inr (alloc []
                 [t_sqrt r (sum_red r
                    (map (\<lambda>idx. t_pow r 2 (t_sub r (get_at h a (bidx (sizes a) idx))
                                                   (get_at h b (bidx (sizes b) idx))))
                         (indices sz)))] h))"

definition unary :: "(real \<Rightarrow> real) \<Rightarrow> tensor \<Rightarrow> heap \<Rightarrow> tensor \<times> heap" where
  "unary f t h = alloc (sizes t) (map (\<lambda>idx. f (get_at h t idx)) (indices (sizes t))) h"

text \<open>\<open>c * t\<close> for a number \<open>c\<close>\<close>

definition scalar_mul :: "(real \<Rightarrow> real) \<Rightarrow> real \<Rightarrow> tensor \<Rightarrow> heap \<Rightarrow> tensor \<times> heap" where
  "scalar_mul r c t h = unary (\<lambda>x. t_mul r c x) t h"

text \<open>\<open>torch.exp(t)\<close>\<close>

definition torch_exp :: "(real \<Rightarrow> real) \<Rightarrow> tensor \<Rightarrow> heap \<Rightarrow> tensor \<times> heap" where
  "torch_exp r t h = unary (t_exp r) t h"

subsection \<open>Operations that overwrite a tensor\<close>

definition inplace :: "(real \<Rightarrow> real) \<Rightarrow> tensor \<Rightarrow> heap \<Rightarrow> heap" where
  "inplace f t h =
     h[stor t := fold (\<lambda>p xs. xs[p := f (xs ! p)]) (map (pos t) (indices (sizes t)))
                      (h ! stor t)]"

text \<open>\<open>t.pow_(e)\<close>, \<open>t.sqrt_()\<close>, \<open>t.mul_(c)\<close>, \<open>t.exp_()\<close>; each returns \<open>t\<close> itself.\<close>

definition pow_inplace :: "(real \<Rightarrow> real) \<Rightarrow> nat \<Rightarrow> tensor \<Rightarrow> heap \<Rightarrow> heap" where
  "pow_inplace r e t h = inplace (t_pow r e) t h"

definition sqrt_inplace :: "(real \<Rightarrow> real) \<Rightarrow> tensor \<Rightarrow> heap \<Rightarrow> heap" where
  "sqrt_inplace r t h = inplace (t_sqrt r) t h"

definition mul_inplace :: "(real \<Rightarrow> real) \<Rightarrow> real \<Rightarrow> tensor \<Rightarrow> heap \<Rightarrow> heap" where
  "mul_inplace r c t h = inplace (\<lambda>x. t_mul r x c) t h"

definition exp_inplace :: "(real \<Rightarrow> real) \<Rightarrow> tensor \<Rightarrow> heap \<Rightarrow> heap" where
  "exp_inplace r t h = inplace (t_exp r) t h"

text \<open>An assignment through a view: the source is read, broadcast to the shape of the
  destination, and written there. A source that does not broadcast to that shape is a
  shape error. (The library first drops leading dimensions of size 1 of the source; no
  source below has more dimensions than its destination.)\<close>

definition copy_into :: "tensor \<Rightarrow> tensor \<Rightarrow> heap \<Rightarrow> error + heap" where
  "copy_into dst src h =
     (if bshape (sizes dst) (sizes src) = Some (sizes dst)
      then Inr (h[stor dst :=
                   fold (\<lambda>idx xs. xs[pos dst idx := get_at h src (bidx (sizes src) idx)])
                        (indices (sizes dst)) (h ! stor dst)])
      else Inl ShapeError)"

text \<open>\<open>t[i, j] = v\<close>\<close>

definition setitem2 :: "tensor \<Rightarrow> nat \<Rightarrow> nat \<Rightarrow> tensor \<Rightarrow> heap \<Rightarrow> error + heap" where
  "setitem2 t i j v h =
     (case select t i of Inl e \<Rightarrow> Inl e
      | Inr ti \<Rightarrow> (case select ti j of Inl e \<Rightarrow> Inl e | Inr tij \<Rightarrow> copy_into tij v h))"

text \<open>\<open>t[i, :] = v\<close>\<close>

definition setitem_row :: "tensor \<Rightarrow> nat \<Rightarrow> tensor \<Rightarrow> heap \<Rightarrow> error + heap" where
  "setitem_row t i v h =
     (case select t i of Inl e \<Rightarrow> Inl e | Inr ti \<Rightarrow> copy_into ti v h)"

section \<open>The three computations\<close>

text \<open>\<open>for i in xs: body(i)\<close>, stopping at the first exception.\<close>

fun for_range :: "nat list \<Rightarrow> (nat \<Rightarrow> heap \<Rightarrow> error + heap) \<Rightarrow> heap \<Rightarrow> error + heap" where
  "for_range [] body h = Inr h"
| "for_range (i # is) body h =
     (case body i h of Inl e \<Rightarrow> Inl e | Inr h' \<Rightarrow> for_range is body h')"

text \<open>The statement of the inner loop of \<open>naive\<close>:
  \<open>result[i,j] = torch.exp(-0.25 * torch.dist(u[i], u[j]))\<close>\<close>

definition naive_assign ::
  "(real \<Rightarrow> real) \<Rightarrow> tensor \<Rightarrow> tensor \<Rightarrow> nat \<Rightarrow> nat \<Rightarrow> heap \<Rightarrow> error + heap" where
  "naive_assign r u result i j h =
     (case select u i of Inl e \<Rightarrow> Inl e
      | Inr ui \<Rightarrow>
     (case select u j of Inl e \<Rightarrow> Inl e
      | Inr uj \<Rightarrow>
     (case torch_dist r ui uj h of Inl e \<Rightarrow> Inl e
      | Inr (d, h1) \<Rightarrow>
     (case scalar_mul r (- 0.25) d h1 of (m, h2) \<Rightarrow>
     (case torch_exp r m h2 of (e, h3) \<Rightarrow>
        setitem2 result i j e h3)))))"

text \<open>\<open>naive(u, N)\<close> of Etude1.ipynb: the size of the result is an argument.\<close>

definition naive_sized ::
  "(real \<Rightarrow> real) \<Rightarrow> tensor \<Rightarrow> nat \<Rightarrow> heap \<Rightarrow> error + tensor \<times> heap" where
  "naive_sized r u N h =
     (case zeros [N, N] h of (result, h1) \<Rightarrow>
     (case for_range [0..<N] (\<lambda>i. for_range [0..<N] (\<lambda>j. naive_assign r u result i j)) h1 of
        Inl e \<Rightarrow> Inl e
      | Inr h2 \<Rightarrow> Inr (result, h2)))"

text \<open>\<open>naive(u)\<close> of the later notebook: the size is read from \<open>u\<close>.\<close>

definition naive :: "(real \<Rightarrow> real) \<Rightarrow> tensor \<Rightarrow> heap \<Rightarrow> error + tensor \<times> heap" where
  "naive r u h =
     (case shape0 u of Inl e \<Rightarrow> Inl e
      | Inr N \<Rightarrow>
     (case zeros [N, N] h of (result, h1) \<Rightarrow>
     (case for_range [0..<N] (\<lambda>i. for_range [0..<N] (\<lambda>j. naive_assign r u result i j)) h1 of
        Inl e \<Rightarrow> Inl e
      | Inr h2 \<Rightarrow> Inr (result, h2))))"

text \<open>The body of the loop of \<open>one_dim_vectorized\<close>:
  \<open>du = u[i] - u\<close> and
  \<open>result[i,:] = du.pow_(2).sum(dim=1).sqrt_().mul_(-0.25).exp_()\<close>\<close>

definition one_dim_row ::
  "(real \<Rightarrow> real) \<Rightarrow> tensor \<Rightarrow> tensor \<Rightarrow> nat \<Rightarrow> heap \<Rightarrow> error + heap" where
  "one_dim_row r u result i h =
     (case select u i of Inl e \<Rightarrow> Inl e
      | Inr ui \<Rightarrow>
     (case sub r ui u h of Inl e \<Rightarrow> Inl e
      | Inr (du, h1) \<Rightarrow>
     (case sum_dim r 1 du (pow_inplace r 2 du h1) of Inl e \<Rightarrow> Inl e
      | Inr (s, h2) \<Rightarrow>
        setitem_row result i s (exp_inplace r s (mul_inplace r (- 0.25) s (sqrt_inplace r s h2))))))"

text \<open>\<open>one_dim_vectorized(u, N)\<close> of Etude1.ipynb\<close>

definition one_dim_vectorized_sized ::
  "(real \<Rightarrow> real) \<Rightarrow> tensor \<Rightarrow> nat \<Rightarrow> heap \<Rightarrow> error + tensor \<times> heap" where
  "one_dim_vectorized_sized r u N h =
     (case zeros [N, N] h of (result, h1) \<Rightarrow>
     (case for_range [0..<N] (one_dim_row r u result) h1 of
        Inl e \<Rightarrow> Inl e
      | Inr h2 \<Rightarrow> Inr (result, h2)))"

text \<open>\<open>one_dim_vectorized(u)\<close> of the later notebook\<close>

definition one_dim_vectorized ::
  "(real \<Rightarrow> real) \<Rightarrow> tensor \<Rightarrow> heap \<Rightarrow> error + tensor \<times> heap" where
  "one_dim_vectorized r u h =
     (case shape0 u of Inl e \<Rightarrow> Inl e
      | Inr N \<Rightarrow>
     (case zeros [N, N] h of (result, h1) \<Rightarrow>
     (case for_range [0..<N] (one_dim_row r u result) h1 of
        Inl e \<Rightarrow> Inl e
      | Inr h2 \<Rightarrow> Inr (result, h2))))"

text \<open>\<open>fully_vectorized(u)\<close>:
  \<open>u_ = u.reshape(1, *u.shape)\<close>, \<open>A_ = u_.permute((1, 0, 2)) - u_\<close>, and the result is
  \<open>A_.pow_(2).sum(dim=2).sqrt_().mul_(-0.25).exp_()\<close>\<close>

definition fully_vectorized ::
  "(real \<Rightarrow> real) \<Rightarrow> tensor \<Rightarrow> heap \<Rightarrow> error + tensor \<times> heap" where
  "fully_vectorized r u h =
     (let ur = reshape1 u in
      case permute [1, 0, 2] ur of Inl e \<Rightarrow> Inl e
      | Inr p \<Rightarrow>
     (case sub r p ur h of Inl e \<Rightarrow> Inl e
      | Inr (Ar, h1) \<Rightarrow>
     (case sum_dim r 2 Ar (pow_inplace r 2 Ar h1) of Inl e \<Rightarrow> Inl e
      | Inr (s, h2) \<Rightarrow>
        Inr (s, exp_inplace r s (mul_inplace r (- 0.25) s (sqrt_inplace r s h2))))))"

text \<open>\<open>fully_vectorized(u, N)\<close> of Etude1.ipynb: the same body; \<open>N\<close> does not occur in it.\<close>

definition fully_vectorized_sized ::
  "(real \<Rightarrow> real) \<Rightarrow> tensor \<Rightarrow> nat \<Rightarrow> heap \<Rightarrow> error + tensor \<times> heap" where
  "fully_vectorized_sized r u N h =
     (let ur = reshape1 u in
      case permute [1, 0, 2] ur of Inl e \<Rightarrow> Inl e
      | Inr p \<Rightarrow>
     (case sub r p ur h of Inl e \<Rightarrow> Inl e
      | Inr (Ar, h1) \<Rightarrow>
     (case sum_dim r 2 Ar (pow_inplace r 2 Ar h1) of Inl e \<Rightarrow> Inl e
      | Inr (s, h2) \<Rightarrow>
        Inr (s, exp_inplace r s (mul_inplace r (- 0.25) s (sqrt_inplace r s h2))))))"

section \<open>The function of the specification\<close>

text \<open>The specification describes every entry of the result by the Euclidean distance of
  two points and its transform. These two definitions follow its words; the computations
  above are compared with them.\<close>

text \<open>Point \<open>i\<close> of a two-dimensional tensor, as the list of its coordinates.\<close>

definition point :: "heap \<Rightarrow> tensor \<Rightarrow> nat \<Rightarrow> real list" where
  "point h u i = map (\<lambda>k. get_at h u [i, k]) [0..<sizes u ! 1]"

text \<open>The square root of the sum of the squared coordinate differences, and the transform
  \<open>exp (- 0.25 * d)\<close> of a distance \<open>d\<close>, each step rounded.\<close>

definition euclidean_distance :: "(real \<Rightarrow> real) \<Rightarrow> real list \<Rightarrow> real list \<Rightarrow> real" where
  "euclidean_distance r x y =
     t_sqrt r (sum_red r (map (t_pow r 2) (map2 (t_sub r) x y)))"

definition affinity :: "(real \<Rightarrow> real) \<Rightarrow> real list \<Rightarrow> real list \<Rightarrow> real" where
  "affinity r x y = t_exp r (t_mul r (- 0.25) (euclidean_distance r x y))"

section \<open>The computations on values that may be infinite or NaN\<close>

text \<open>
  The store above holds real numbers, so its tensors have finite elements only. A
  floating-point tensor can also hold the two infinities and NaN, and the functions of the
  notebooks accept such an input. This section repeats the operations and the three
  computations on such values, statement by statement as above; handles, shapes, views and
  broadcasting are the ones above. Finite results are exact here: rounding and overflow
  play no part in what this section is used for, and the two zeros are not told apart.
\<close>

datatype xval = Fin real | PInf | NInf | NaN

type_synonym xheap = "xval list list"

text \<open>The arithmetic of the floating-point standard on these values.\<close>

fun x_sub :: "xval \<Rightarrow> xval \<Rightarrow> xval" where
  "x_sub NaN y = NaN"
| "x_sub x NaN = NaN"
| "x_sub (Fin a) (Fin b) = Fin (a - b)"
| "x_sub (Fin a) PInf = NInf"
| "x_sub (Fin a) NInf = PInf"
| "x_sub PInf (Fin b) = PInf"
| "x_sub NInf (Fin b) = NInf"
| "x_sub PInf NInf = PInf"
| "x_sub NInf PInf = NInf"
| "x_sub PInf PInf = NaN"
| "x_sub NInf NInf = NaN"

fun x_add :: "xval \<Rightarrow> xval \<Rightarrow> xval" where
  "x_add NaN y = NaN"
| "x_add x NaN = NaN"
| "x_add (Fin a) (Fin b) = Fin (a + b)"
| "x_add (Fin a) PInf = PInf"
| "x_add (Fin a) NInf = NInf"
| "x_add PInf (Fin b) = PInf"
| "x_add NInf (Fin b) = NInf"
| "x_add PInf PInf = PInf"
| "x_add NInf NInf = NInf"
| "x_add PInf NInf = NaN"
| "x_add NInf PInf = NaN"

fun x_mul :: "xval \<Rightarrow> xval \<Rightarrow> xval" where
  "x_mul NaN y = NaN"
| "x_mul x NaN = NaN"
| "x_mul (Fin a) (Fin b) = Fin (a * b)"
| "x_mul (Fin a) PInf = (if a = 0 then NaN else if 0 < a then PInf else NInf)"
| "x_mul (Fin a) NInf = (if a = 0 then NaN else if 0 < a then NInf else PInf)"
| "x_mul PInf (Fin b) = (if b = 0 then NaN else if 0 < b then PInf else NInf)"
| "x_mul NInf (Fin b) = (if b = 0 then NaN else if 0 < b then NInf else PInf)"
| "x_mul PInf PInf = PInf"
| "x_mul NInf NInf = PInf"
| "x_mul PInf NInf = NInf"
| "x_mul NInf PInf = NInf"

fun x_pow :: "nat \<Rightarrow> xval \<Rightarrow> xval" where
  "x_pow 0 x = Fin 1"
| "x_pow (Suc e) x = x_mul x (x_pow e x)"

fun x_sqrt :: "xval \<Rightarrow> xval" where
  "x_sqrt (Fin a) = (if a < 0 then NaN else Fin (sqrt a))"
| "x_sqrt PInf = PInf"
| "x_sqrt NInf = NaN"
| "x_sqrt NaN = NaN"

fun x_exp :: "xval \<Rightarrow> xval" where
  "x_exp (Fin a) = Fin (exp a)"
| "x_exp PInf = PInf"
| "x_exp NInf = Fin 0"
| "x_exp NaN = NaN"

text \<open>\<open>x == y\<close> on two elements: NaN is equal to nothing, itself included.\<close>

fun x_eq :: "xval \<Rightarrow> xval \<Rightarrow> bool" where
  "x_eq NaN y = False"
| "x_eq x NaN = False"
| "x_eq x y = (x = y)"

fun x_sum_red :: "xval list \<Rightarrow> xval" where
  "x_sum_red [] = Fin 0"
| "x_sum_red (x # xs) = foldl x_add x xs"

text \<open>The operations on tensors, as \<open>get_at\<close>, \<open>alloc\<close>, \<open>zeros\<close>, \<open>sub\<close>, \<open>sum_dim\<close>,
  \<open>torch_dist\<close>, \<open>unary\<close>, \<open>scalar_mul\<close>, \<open>torch_exp\<close>, \<open>inplace\<close>, \<open>pow_inplace\<close>,
  \<open>sqrt_inplace\<close>, \<open>mul_inplace\<close>, \<open>exp_inplace\<close>, \<open>copy_into\<close>, \<open>setitem2\<close> and
  \<open>setitem_row\<close> above.\<close>

definition x_get_at :: "xheap \<Rightarrow> tensor \<Rightarrow> nat list \<Rightarrow> xval" where
  "x_get_at h t idx = h ! stor t ! pos t idx"

definition x_alloc :: "nat list \<Rightarrow> xval list \<Rightarrow> xheap \<Rightarrow> tensor \<times> xheap" where
  "x_alloc sz xs h = (\<lparr>stor = length h, offs = 0, sizes = sz, strides = cstrides sz\<rparr>, h @ [xs])"

definition x_zeros :: "nat list \<Rightarrow> xheap \<Rightarrow> tensor \<times> xheap" where
  "x_zeros sz h = x_alloc sz (replicate (prod_list sz) (Fin 0)) h"

definition x_sub_tensor :: "tensor \<Rightarrow> tensor \<Rightarrow> xheap \<Rightarrow> error + tensor \<times> xheap" where
  "x_sub_tensor a b h =
     (case bshape (sizes a) (sizes b) of None \<Rightarrow> Inl ShapeError
      | Some sz \<Rightarrow>
          Inr (x_alloc sz
                 (map (\<lambda>idx. x_sub (x_get_at h a (bidx (sizes a) idx))
                                    (x_get_at h b (bidx (sizes b) idx)))
                      (indices sz)) h))"

definition x_sum_dim :: "nat \<Rightarrow> tensor \<Rightarrow> xheap \<Rightarrow> error + tensor \<times> xheap" where
  "x_sum_dim d t h =
     (if d < length (sizes t)
      then let sz = take d (sizes t) @ drop (Suc d) (sizes t)
           in Inr (x_alloc sz
                     (map (\<lambda>idx. x_sum_red (map (\<lambda>k. x_get_at h t (take d idx @ k # drop d idx))
                                                 [0..<sizes t ! d]))
                          (indices sz)) h)
      else Inl IndexError)"

definition x_torch_dist :: "tensor \<Rightarrow> tensor \<Rightarrow> xheap \<Rightarrow> error + tensor \<times> xheap" where
  "x_torch_dist a b h =
     (case bshape (sizes a) (sizes b) of None \<Rightarrow> Inl ShapeError
      | Some sz \<Rightarrow>
          Inr (x_alloc []
                 [x_sqrt (x_sum_red
                    (map (\<lambda>idx. x_pow 2 (x_sub (x_get_at h a (bidx (sizes a) idx))
                                               (x_get_at h b (bidx (sizes b) idx))))
                         (indices sz)))] h))"

definition x_unary :: "(xval \<Rightarrow> xval) \<Rightarrow> tensor \<Rightarrow> xheap \<Rightarrow> tensor \<times> xheap" where
  "x_unary f t h = x_alloc (sizes t) (map (\<lambda>idx. f (x_get_at h t idx)) (indices (sizes t))) h"

definition x_scalar_mul :: "real \<Rightarrow> tensor \<Rightarrow> xheap \<Rightarrow> tensor \<times> xheap" where
  "x_scalar_mul c t h = x_unary (\<lambda>x. x_mul (Fin c) x) t h"

definition x_torch_exp :: "tensor \<Rightarrow> xheap \<Rightarrow> tensor \<times> xheap" where
  "x_torch_exp t h = x_unary x_exp t h"

definition x_inplace :: "(xval \<Rightarrow> xval) \<Rightarrow> tensor \<Rightarrow> xheap \<Rightarrow> xheap" where
  "x_inplace f t h =
     h[stor t := fold (\<lambda>p xs. xs[p := f (xs ! p)]) (map (pos t) (indices (sizes t)))
                      (h ! stor t)]"

definition x_pow_inplace :: "nat \<Rightarrow> tensor \<Rightarrow> xheap \<Rightarrow> xheap" where
  "x_pow_inplace e t h = x_inplace (x_pow e) t h"

definition x_sqrt_inplace :: "tensor \<Rightarrow> xheap \<Rightarrow> xheap" where
  "x_sqrt_inplace t h = x_inplace x_sqrt t h"

definition x_mul_inplace :: "real \<Rightarrow> tensor \<Rightarrow> xheap \<Rightarrow> xheap" where
  "x_mul_inplace c t h = x_inplace (\<lambda>x. x_mul x (Fin c)) t h"

definition x_exp_inplace :: "tensor \<Rightarrow> xheap \<Rightarrow> xheap" where
  "x_exp_inplace t h = x_inplace x_exp t h"

definition x_copy_into :: "tensor \<Rightarrow> tensor \<Rightarrow> xheap \<Rightarrow> error + xheap" where
  "x_copy_into dst src h =
     (if bshape (sizes dst) (sizes src) = Some (sizes dst)
      then Inr (h[stor dst :=
                   fold (\<lambda>idx xs. xs[pos dst idx := x_get_at h src (bidx (sizes src) idx)])
                        (indices (sizes dst)) (h ! stor dst)])
      else Inl ShapeError)"

definition x_setitem2 :: "tensor \<Rightarrow> nat \<Rightarrow> nat \<Rightarrow> tensor \<Rightarrow> xheap \<Rightarrow> error + xheap" where
  "x_setitem2 t i j v h =
     (case select t i of Inl e \<Rightarrow> Inl e
      | Inr ti \<Rightarrow> (case select ti j of Inl e \<Rightarrow> Inl e | Inr tij \<Rightarrow> x_copy_into tij v h))"

definition x_setitem_row :: "tensor \<Rightarrow> nat \<Rightarrow> tensor \<Rightarrow> xheap \<Rightarrow> error + xheap" where
  "x_setitem_row t i v h =
     (case select t i of Inl e \<Rightarrow> Inl e | Inr ti \<Rightarrow> x_copy_into ti v h)"

text \<open>The three computations, as \<open>for_range\<close>, \<open>naive_assign\<close>, \<open>naive\<close>, \<open>one_dim_row\<close>,
  \<open>one_dim_vectorized\<close> and \<open>fully_vectorized\<close> above.\<close>

fun x_for_range :: "nat list \<Rightarrow> (nat \<Rightarrow> xheap \<Rightarrow> error + xheap) \<Rightarrow> xheap \<Rightarrow> error + xheap" where
  "x_for_range [] body h = Inr h"
| "x_for_range (i # is) body h =
     (case body i h of Inl e \<Rightarrow> Inl e | Inr h' \<Rightarrow> x_for_range is body h')"

definition x_naive_assign :: "tensor \<Rightarrow> tensor \<Rightarrow> nat \<Rightarrow> nat \<Rightarrow> xheap \<Rightarrow> error + xheap" where
  "x_naive_assign u result i j h =
     (case select u i of Inl e \<Rightarrow> Inl e
      | Inr ui \<Rightarrow>
     (case select u j of Inl e \<Rightarrow> Inl e
      | Inr uj \<Rightarrow>
     (case x_torch_dist ui uj h of Inl e \<Rightarrow> Inl e
      | Inr (d, h1) \<Rightarrow>
     (case x_scalar_mul (- 0.25) d h1 of (m, h2) \<Rightarrow>
     (case x_torch_exp m h2 of (e, h3) \<Rightarrow>
        x_setitem2 result i j e h3)))))"

definition x_naive :: "tensor \<Rightarrow> xheap \<Rightarrow> error + tensor \<times> xheap" where
  "x_naive u h =
     (case shape0 u of Inl e \<Rightarrow> Inl e
      | Inr N \<Rightarrow>
     (case x_zeros [N, N] h of (result, h1) \<Rightarrow>
     (case x_for_range [0..<N] (\<lambda>i. x_for_range [0..<N] (\<lambda>j. x_naive_assign u result i j)) h1 of
        Inl e \<Rightarrow> Inl e
      | Inr h2 \<Rightarrow> Inr (result, h2))))"

definition x_one_dim_row :: "tensor \<Rightarrow> tensor \<Rightarrow> nat \<Rightarrow> xheap \<Rightarrow> error + xheap" where
  "x_one_dim_row u result i h =
     (case select u i of Inl e \<Rightarrow> Inl e
      | Inr ui \<Rightarrow>
     (case x_sub_tensor ui u h of Inl e \<Rightarrow> Inl e
      | Inr (du, h1) \<Rightarrow>
     (case x_sum_dim 1 du (x_pow_inplace 2 du h1) of Inl e \<Rightarrow> Inl e
      | Inr (s, h2) \<Rightarrow>
        x_setitem_row result i s
          (x_exp_inplace s (x_mul_inplace (- 0.25) s (x_sqrt_inplace s h2))))))"

definition x_one_dim_vectorized :: "tensor \<Rightarrow> xheap \<Rightarrow> error + tensor \<times> xheap" where
  "x_one_dim_vectorized u h =
     (case shape0 u of Inl e \<Rightarrow> Inl e
      | Inr N \<Rightarrow>
     (case x_zeros [N, N] h of (result, h1) \<Rightarrow>
     (case x_for_range [0..<N] (x_one_dim_row u result) h1 of
        Inl e \<Rightarrow> Inl e
      | Inr h2 \<Rightarrow> Inr (result, h2))))"

definition x_fully_vectorized :: "tensor \<Rightarrow> xheap \<Rightarrow> error + tensor \<times> xheap" where
  "x_fully_vectorized u h =
     (let ur = reshape1 u in
      case permute [1, 0, 2] ur of Inl e \<Rightarrow> Inl e
      | Inr p \<Rightarrow>
     (case x_sub_tensor p ur h of Inl e \<Rightarrow> Inl e
      | Inr (Ar, h1) \<Rightarrow>
     (case x_sum_dim 2 Ar (x_pow_inplace 2 Ar h1) of Inl e \<Rightarrow> Inl e
      | Inr (s, h2) \<Rightarrow>
        Inr (s, x_exp_inplace s (x_mul_inplace (- 0.25) s (x_sqrt_inplace s h2))))))"

text \<open>The element at \<open>[i, j]\<close> of the returned tensor; \<open>None\<close> when the call raises.\<close>

definition x_entry :: "error + tensor \<times> xheap \<Rightarrow> nat \<Rightarrow> nat \<Rightarrow> xval option" where
  "x_entry res i j = (case res of Inl e \<Rightarrow> None | Inr (t, H) \<Rightarrow> Some (x_get_at H t [i, j]))"

section \<open>Notions used in the proofs\<close>

text \<open>The position of an index in the storage of a contiguous tensor of shape \<open>sz\<close>.\<close>

definition cpos :: "nat list \<Rightarrow> nat list \<Rightarrow> nat" where
  "cpos sz idx = sum_list (map2 (*) idx (cstrides sz))"

text \<open>The handle that \<open>alloc\<close> returns for the storage address \<open>a\<close>.\<close>

definition contig :: "nat \<Rightarrow> nat list \<Rightarrow> tensor" where
  "contig a sz = \<lparr>stor = a, offs = 0, sizes = sz, strides = cstrides sz\<rparr>"

text \<open>The elements of the result, in row-major order: the element at \<open>[i, j]\<close> is the
  transform of the distance of the points \<open>i\<close> and \<open>j\<close>.\<close>

definition affinities :: "(real \<Rightarrow> real) \<Rightarrow> heap \<Rightarrow> tensor \<Rightarrow> nat \<Rightarrow> real list" where
  "affinities r h u N =
     map (\<lambda>idx. affinity r (point h u (idx ! 0)) (point h u (idx ! 1))) (indices [N, N])"

text \<open>The storage of the intermediate tensor \<open>A_\<close> of \<open>fully_vectorized\<close> after \<open>pow_(2)\<close>.\<close>

definition squares :: "(real \<Rightarrow> real) \<Rightarrow> heap \<Rightarrow> tensor \<Rightarrow> nat \<Rightarrow> nat \<Rightarrow> real list" where
  "squares r h u N D =
     map (\<lambda>idx. t_pow r 2 (t_sub r (get_at h u [idx ! 0, idx ! 2]) (get_at h u [idx ! 1, idx ! 2])))
       (indices [N, N, D])"

text \<open>The invariant of the loops of \<open>naive\<close> and \<open>one_dim_vectorized\<close>, where \<open>h\<close> is the
  store before the call and \<open>result\<close> is allocated right after it: the storages of \<open>h\<close> are
  unchanged in \<open>H\<close>, and the storage of \<open>result\<close> has the length of \<open>tgt\<close> and agrees
  with \<open>tgt\<close> on its first \<open>k\<close> elements.\<close>

definition filled :: "heap \<Rightarrow> real list \<Rightarrow> nat \<Rightarrow> heap \<Rightarrow> bool" where
  "filled h tgt k H \<longleftrightarrow>
     length h < length H \<and> take (length h) H = h \<and>
     length (H ! length h) = length tgt \<and> take k (H ! length h) = take k tgt"

text \<open>Row \<open>i\<close> of the result of \<open>one_dim_vectorized\<close>, and the storage of \<open>du\<close> after
  \<open>pow_(2)\<close>.\<close>

definition affinity_row :: "(real \<Rightarrow> real) \<Rightarrow> heap \<Rightarrow> tensor \<Rightarrow> nat \<Rightarrow> nat \<Rightarrow> real list" where
  "affinity_row r h u i M =
     map (\<lambda>idx. affinity r (point h u i) (point h u (idx ! 0))) (indices [M])"

definition row_squares :: "(real \<Rightarrow> real) \<Rightarrow> heap \<Rightarrow> tensor \<Rightarrow> nat \<Rightarrow> nat \<Rightarrow> nat \<Rightarrow> real list" where
  "row_squares r h u i M D =
     map (\<lambda>idx. t_pow r 2 (t_sub r (get_at h u [i, idx ! 1]) (get_at h u [idx ! 0, idx ! 1])))
       (indices [M, D])"

section \<open>What a call returns\<close>

text \<open>The shape and the elements of the returned tensor, read in the final store; \<open>None\<close>
  when the call raises.\<close>

definition returned :: "error + tensor \<times> heap \<Rightarrow> (nat list \<times> real list) option" where
  "returned res = (case res of Inl e \<Rightarrow> None | Inr (t, H) \<Rightarrow> Some (contents H t))"

text \<open>The element at \<open>[i, j]\<close> of the returned tensor.\<close>

definition entry :: "error + tensor \<times> heap \<Rightarrow> nat \<Rightarrow> nat \<Rightarrow> real option" where
  "entry res i j = (case res of Inl e \<Rightarrow> None | Inr (t, H) \<Rightarrow> Some (get_at H t [i, j]))"

section \<open>Example inputs\<close>

text \<open>The points \<open>(0, 0)\<close> and \<open>(4, 0)\<close>, as a contiguous tensor of shape \<open>2 \<times> 2\<close> on the only
  storage of the store.\<close>

definition h_two :: heap where
  "h_two = [[0, 0, 4, 0]]"

definition u_two :: tensor where
  "u_two = \<lparr>stor = 0, offs = 0, sizes = [2, 2], strides = [2, 1]\<rparr>"

text \<open>No point: a tensor of shape \<open>0 \<times> 2\<close> on an empty storage.\<close>

definition h_empty :: heap where
  "h_empty = [[]]"

definition u_empty :: tensor where
  "u_empty = \<lparr>stor = 0, offs = 0, sizes = [0, 2], strides = [2, 1]\<rparr>"

subsection \<open>An arithmetic with underflow\<close>

text \<open>A rounding with the underflow of single precision, whose least positive number is
  \<open>2 ^ -149\<close>: a number of magnitude at most \<open>2 ^ -150\<close> is rounded to 0. Every other
  number is kept as it is.\<close>

definition flush :: "real \<Rightarrow> real" where
  "flush x = (if \<bar>x\<bar> \<le> 1 / 2 ^ 150 then 0 else x)"

text \<open>The points \<open>(0, 0)\<close> and \<open>(1000, 0)\<close>.\<close>

definition h_far :: heap where
  "h_far = [[0, 0, 1000, 0]]"

definition u_far :: tensor where
  "u_far = \<lparr>stor = 0, offs = 0, sizes = [2, 2], strides = [2, 1]\<rparr>"

text \<open>The single point \<open>(3, 5)\<close>.\<close>

definition h_one :: heap where
  "h_one = [[3, 5]]"

definition u_one :: tensor where
  "u_one = \<lparr>stor = 0, offs = 0, sizes = [1, 2], strides = [2, 1]\<rparr>"

text \<open>Two coincident points \<open>(0, 0)\<close>.\<close>

definition h_same :: heap where
  "h_same = [[0, 0, 0, 0]]"

definition u_same :: tensor where
  "u_same = \<lparr>stor = 0, offs = 0, sizes = [2, 2], strides = [2, 1]\<rparr>"

text \<open>Two points of three coordinates, \<open>(0, 0, 0)\<close> and \<open>(3, 4, 12)\<close>: a tensor of shape
  \<open>2 \<times> 3\<close>.\<close>

definition h_three :: heap where
  "h_three = [[0, 0, 0, 3, 4, 12]]"

definition u_three :: tensor where
  "u_three = \<lparr>stor = 0, offs = 0, sizes = [2, 3], strides = [3, 1]\<rparr>"

text \<open>The points \<open>(0, 0)\<close> and \<open>(inf, 0)\<close>, read through the handle \<open>u_two\<close>.\<close>

definition h_inf :: xheap where
  "h_inf = [[Fin 0, Fin 0, PInf, Fin 0]]"

section \<open>Indices and contiguous tensors\<close>

lemma length_indices: "length (indices sz) = prod_list sz"
  by (induction sz) (simp_all add: length_concat comp_def sum_list_triv)

lemma set_indices_Cons:
  "set (indices (n # ns)) = {i # idx | i idx. i < n \<and> idx \<in> set (indices ns)}"
  by auto

lemma concat_shift_upt:
  "concat (map (\<lambda>i. map (\<lambda>p. i * m + p) [0..<m]) [0..<n]) = [0..<n * m]"
proof (induction n)
  case 0
  show ?case by simp
next
  case (Suc n)
  have a: "map (\<lambda>p. n * m + p) [0..<m] = [n * m..<n * m + m]"
    using map_add_upt [of "n * m" m] by (simp add: add.commute)
  have b: "[0..<Suc n * m] = [0..<n * m] @ [n * m..<n * m + m]"
    using upt_add_eq_append [of 0 "n * m" m] by (simp add: add.commute)
  show ?case
    unfolding b using Suc a by simp
qed

lemma cpos_Cons: "cpos (n # ns) (i # idx) = i * prod_list ns + cpos ns idx"
  by (simp add: cpos_def)

lemma map_cpos_indices: "map (cpos sz) (indices sz) = [0..<prod_list sz]"
proof (induction sz)
  case Nil
  show ?case by (simp add: cpos_def)
next
  case (Cons n ns)
  have "map (cpos (n # ns)) (indices (n # ns)) =
        concat (map (\<lambda>i. map (\<lambda>idx. i * prod_list ns + cpos ns idx) (indices ns)) [0..<n])"
    by (simp add: map_concat comp_def cpos_Cons)
  also have "\<dots> = concat (map (\<lambda>i. map (\<lambda>p. i * prod_list ns + p) (map (cpos ns) (indices ns))) [0..<n])"
    by (simp add: comp_def)
  also have "\<dots> = [0..<n * prod_list ns]"
    unfolding Cons.IH by (rule concat_shift_upt)
  finally show ?case by (simp only: prod_list.Cons)
qed

lemma contig_simps [simp]:
  "stor (contig a sz) = a" "offs (contig a sz) = 0" "sizes (contig a sz) = sz"
  "strides (contig a sz) = cstrides sz"
  by (simp_all add: contig_def)

lemma alloc_eq: "alloc sz xs h = (contig (length h) sz, h @ [xs])"
  by (simp add: alloc_def contig_def)

lemma pos_contig: "pos (contig a sz) idx = cpos sz idx"
  by (simp add: pos_def cpos_def)

lemma cpos_nth:
  assumes "idx \<in> set (indices sz)"
  shows "cpos sz idx < prod_list sz \<and> indices sz ! cpos sz idx = idx"
proof -
  from assms obtain q where q: "q < length (indices sz)" "indices sz ! q = idx"
    by (auto simp: in_set_conv_nth)
  have "map (cpos sz) (indices sz) ! q = [0..<prod_list sz] ! q"
    by (simp only: map_cpos_indices)
  with q have "cpos sz idx = q"
    by (simp add: length_indices)
  with q show ?thesis by (simp add: length_indices)
qed

lemma get_contig:
  assumes "idx \<in> set (indices sz)" "H ! a = map f (indices sz)"
  shows "get_at H (contig a sz) idx = f idx"
  using cpos_nth [OF assms(1)] assms(2)
  by (simp add: get_at_def pos_contig length_indices)

lemma fold_update_prefix:
  "n \<le> length xs \<Longrightarrow>
   fold (\<lambda>p ys. ys[p := f (ys ! p)]) [0..<n] xs = map f (take n xs) @ drop n xs"
proof (induction n)
  case 0
  show ?case by simp
next
  case (Suc n)
  then have n: "n < length xs" by simp
  have "(map f (take n xs) @ drop n xs)[n := f ((map f (take n xs) @ drop n xs) ! n)] =
        map f (take (Suc n) xs) @ drop (Suc n) xs"
    using n by (simp add: list_update_append nth_append take_Suc_conv_app_nth
        upd_conv_take_nth_drop min_def drop_Suc flip: drop_Suc)
  with Suc n show ?case by simp
qed

lemma fold_update_all:
  "fold (\<lambda>p ys. ys[p := f (ys ! p)]) [0..<length xs] xs = map f xs"
  using fold_update_prefix [of "length xs" xs f] by simp

lemma inplace_contig:
  assumes "a < length H" "H ! a = map f (indices sz)"
  shows "inplace g (contig a sz) H = H[a := map (\<lambda>idx. g (f idx)) (indices sz)]"
proof -
  have "map (pos (contig a sz)) (indices sz) = [0..<length (map f (indices sz))]"
    using map_cpos_indices [of sz] by (simp add: pos_contig [abs_def] cpos_def [abs_def] length_indices)
  moreover have "fold (\<lambda>p ys. ys[p := g (ys ! p)]) [0..<length (map f (indices sz))]
      (map f (indices sz)) = map g (map f (indices sz))"
    by (rule fold_update_all)
  ultimately show ?thesis
    using assms by (simp add: inplace_def comp_def)
qed

lemma indices0: "set (indices []) = {[]}"
  by simp

lemma indices1: "idx \<in> set (indices [n]) \<longleftrightarrow> (\<exists>i<n. idx = [i])"
  by (auto simp: set_indices_Cons indices0 simp del: indices.simps)

lemma indices2: "idx \<in> set (indices [n, m]) \<longleftrightarrow> (\<exists>i<n. \<exists>j<m. idx = [i, j])"
  by (auto simp: set_indices_Cons indices0 simp del: indices.simps)

lemma indices3:
  "idx \<in> set (indices [n, m, l]) \<longleftrightarrow> (\<exists>i<n. \<exists>j<m. \<exists>k<l. idx = [i, j, k])"
  by (auto simp: set_indices_Cons indices0 simp del: indices.simps)

declare indices.simps [simp del]

lemma nth_append_fresh [simp]: "(h @ [xs]) ! length h = xs"
  by simp

lemma get_at_append:
  "stor t < length h \<Longrightarrow> get_at (h @ hs) t idx = get_at h t idx"
  by (simp add: get_at_def nth_append)

subsection \<open>Broadcasting, reductions and the chain of overwriting operations\<close>

lemma bshape_pair: "bshape [N, Suc 0, D] [Suc 0, N, D] = Some [N, N, D]"
  by (simp add: bshape_def)

lemma bshape_row: "bshape [D] [N, D] = Some [N, D]"
  by (simp add: bshape_def)

lemma bshape_same: "bshape [D] [D] = Some [D]"
  by (simp add: bshape_def)

lemma bshape_nil: "bshape [] [] = Some []"
  by (simp add: bshape_def)

lemma point_eq:
  "sizes u = [N, D] \<Longrightarrow> point h u i = map (\<lambda>k. get_at h u [i, k]) [0..<D]"
  by (simp add: point_def)

lemma affinity_point:
  assumes "sizes u = [N, D]"
  shows "affinity r (point h u i) (point h u j) =
         t_exp r (t_mul r (t_sqrt r (sum_red r
           (map (\<lambda>k. t_pow r 2 (t_sub r (get_at h u [i, k]) (get_at h u [j, k]))) [0..<D])))
           (- 0.25))"
  by (simp add: affinity_def euclidean_distance_def point_eq [OF assms] zip_map_map
      zip_same_conv_map comp_def t_mul_def mult.commute)

lemma sub_pair:
  assumes "sizes u = [N, D]" "strides u = [s0, s1]"
  shows "sub r (u\<lparr>sizes := [N, Suc 0, D], strides := [s0, c, s1]\<rparr>)
               (u\<lparr>sizes := [Suc 0, N, D], strides := [c, s0, s1]\<rparr>) h =
         Inr (contig (length h) [N, N, D],
              h @ [map (\<lambda>idx. t_sub r (get_at h u [idx ! 0, idx ! 2]) (get_at h u [idx ! 1, idx ! 2]))
                       (indices [N, N, D])])"
proof -
  have eq: "map (\<lambda>idx. t_sub r
           (get_at h (u\<lparr>sizes := [N, Suc 0, D], strides := [s0, c, s1]\<rparr>) (bidx [N, Suc 0, D] idx))
           (get_at h (u\<lparr>sizes := [Suc 0, N, D], strides := [c, s0, s1]\<rparr>) (bidx [Suc 0, N, D] idx)))
          (indices [N, N, D]) =
        map (\<lambda>idx. t_sub r (get_at h u [idx ! 0, idx ! 2]) (get_at h u [idx ! 1, idx ! 2]))
          (indices [N, N, D])"
  proof (rule map_cong [OF refl])
    fix idx assume "idx \<in> set (indices [N, N, D])"
    then obtain i j k where "i < N" "j < N" "k < D" "idx = [i, j, k]"
      unfolding indices3 by blast
    then show "t_sub r
           (get_at h (u\<lparr>sizes := [N, Suc 0, D], strides := [s0, c, s1]\<rparr>) (bidx [N, Suc 0, D] idx))
           (get_at h (u\<lparr>sizes := [Suc 0, N, D], strides := [c, s0, s1]\<rparr>) (bidx [Suc 0, N, D] idx)) =
          t_sub r (get_at h u [idx ! 0, idx ! 2]) (get_at h u [idx ! 1, idx ! 2])"
      using assms by (auto simp: bidx_def get_at_def pos_def)
  qed
  show ?thesis
    by (simp add: sub_def bshape_pair alloc_eq eq)
qed

lemma sum_dim_contig3:
  assumes "H ! a = map f (indices [N, M, D])"
  shows "sum_dim r 2 (contig a [N, M, D]) H =
         Inr (contig (length H) [N, M],
              H @ [map (\<lambda>idx. sum_red r (map (\<lambda>k. f [idx ! 0, idx ! 1, k]) [0..<D]))
                       (indices [N, M])])"
proof -
  have eq: "map (\<lambda>idx. sum_red r (map (\<lambda>k. get_at H (contig a [N, M, D])
                 (take 2 idx @ k # drop 2 idx)) [0..<D])) (indices [N, M]) =
        map (\<lambda>idx. sum_red r (map (\<lambda>k. f [idx ! 0, idx ! 1, k]) [0..<D])) (indices [N, M])"
  proof (rule map_cong [OF refl])
    fix idx assume "idx \<in> set (indices [N, M])"
    then obtain i j where ij: "i < N" "j < M" "idx = [i, j]"
      unfolding indices2 by blast
    have "map (\<lambda>k. get_at H (contig a [N, M, D]) (take 2 idx @ k # drop 2 idx)) [0..<D] =
          map (\<lambda>k. f [idx ! 0, idx ! 1, k]) [0..<D]"
    proof (rule map_cong [OF refl])
      fix k assume "k \<in> set [0..<D]"
      then have "[i, j, k] \<in> set (indices [N, M, D])"
        using ij unfolding indices3 by simp
      from get_contig [OF this assms] show
        "get_at H (contig a [N, M, D]) (take 2 idx @ k # drop 2 idx) = f [idx ! 0, idx ! 1, k]"
        using ij by simp
    qed
    then show "sum_red r (map (\<lambda>k. get_at H (contig a [N, M, D])
                 (take 2 idx @ k # drop 2 idx)) [0..<D]) =
               sum_red r (map (\<lambda>k. f [idx ! 0, idx ! 1, k]) [0..<D])"
      by (rule arg_cong)
  qed
  show ?thesis
    by (simp add: sum_dim_def alloc_eq eq Let_def)
qed

lemma sum_dim_contig2:
  assumes "H ! a = map f (indices [N, D])"
  shows "sum_dim r (Suc 0) (contig a [N, D]) H =
         Inr (contig (length H) [N],
              H @ [map (\<lambda>idx. sum_red r (map (\<lambda>k. f [idx ! 0, k]) [0..<D])) (indices [N])])"
proof -
  have eq: "map (\<lambda>idx. sum_red r (map (\<lambda>k. get_at H (contig a [N, D])
                 (take (Suc 0) idx @ k # drop (Suc 0) idx)) [0..<D])) (indices [N]) =
        map (\<lambda>idx. sum_red r (map (\<lambda>k. f [idx ! 0, k]) [0..<D])) (indices [N])"
  proof (rule map_cong [OF refl])
    fix idx assume "idx \<in> set (indices [N])"
    then obtain i where ij: "i < N" "idx = [i]"
      unfolding indices1 by blast
    have "map (\<lambda>k. get_at H (contig a [N, D]) (take (Suc 0) idx @ k # drop (Suc 0) idx)) [0..<D] =
          map (\<lambda>k. f [idx ! 0, k]) [0..<D]"
    proof (rule map_cong [OF refl])
      fix k assume "k \<in> set [0..<D]"
      then have "[i, k] \<in> set (indices [N, D])"
        using ij unfolding indices2 by simp
      from get_contig [OF this assms] show
        "get_at H (contig a [N, D]) (take (Suc 0) idx @ k # drop (Suc 0) idx) = f [idx ! 0, k]"
        using ij by simp
    qed
    then show "sum_red r (map (\<lambda>k. get_at H (contig a [N, D])
                 (take (Suc 0) idx @ k # drop (Suc 0) idx)) [0..<D]) =
               sum_red r (map (\<lambda>k. f [idx ! 0, k]) [0..<D])"
      by (rule arg_cong)
  qed
  show ?thesis
    by (simp add: sum_dim_def alloc_eq eq Let_def)
qed

lemma reshape1_2d:
  assumes "sizes u = [N, D]" "strides u = [s0, s1]"
  shows "reshape1 u = u\<lparr>sizes := [Suc 0, N, D], strides := [N * s0, s0, s1]\<rparr>"
  using assms by (simp add: reshape1_def)

lemma permute_102:
  assumes "sizes t = [a, b, c]" "strides t = [sa, sb, sc]"
  shows "permute [1, 0, 2] t = Inr (t\<lparr>sizes := [b, a, c], strides := [sb, sa, sc]\<rparr>)"
  using assms by (simp add: permute_def)

lemma pipeline_contig:
  assumes "a < length H" "H ! a = map f (indices sz)"
  shows "exp_inplace r (contig a sz) (mul_inplace r c (contig a sz) (sqrt_inplace r (contig a sz) H)) =
         H[a := map (\<lambda>idx. t_exp r (t_mul r (t_sqrt r (f idx)) c)) (indices sz)]"
proof -
  have 1: "sqrt_inplace r (contig a sz) H = H[a := map (\<lambda>idx. t_sqrt r (f idx)) (indices sz)]"
    unfolding sqrt_inplace_def by (rule inplace_contig [OF assms])
  have 2: "mul_inplace r c (contig a sz) (H[a := map (\<lambda>idx. t_sqrt r (f idx)) (indices sz)]) =
           H[a := map (\<lambda>idx. t_mul r (t_sqrt r (f idx)) c) (indices sz)]"
    unfolding mul_inplace_def
    using inplace_contig [of a "H[a := map (\<lambda>idx. t_sqrt r (f idx)) (indices sz)]"
        "\<lambda>idx. t_sqrt r (f idx)" sz "\<lambda>x. t_mul r x c"] assms(1)
    by simp
  have 3: "exp_inplace r (contig a sz) (H[a := map (\<lambda>idx. t_mul r (t_sqrt r (f idx)) c) (indices sz)]) =
           H[a := map (\<lambda>idx. t_exp r (t_mul r (t_sqrt r (f idx)) c)) (indices sz)]"
    unfolding exp_inplace_def
    using inplace_contig [of a "H[a := map (\<lambda>idx. t_mul r (t_sqrt r (f idx)) c) (indices sz)]"
        "\<lambda>idx. t_mul r (t_sqrt r (f idx)) c" sz "t_exp r"] assms(1)
    by simp
  show ?thesis by (simp only: 1 2 3)
qed

lemma pow_contig:
  assumes "H = h @ [map f (indices sz)]"
  shows "pow_inplace r e (contig (length h) sz) H = h @ [map (\<lambda>idx. t_pow r e (f idx)) (indices sz)]"
  unfolding pow_inplace_def
  using inplace_contig [of "length h" H f sz "t_pow r e"] assms by simp

section \<open>The store after \<open>fully_vectorized\<close>\<close>

lemma fully_vectorized_eq:
  assumes "sizes u = [N, D]" "strides u = [s0, s1]"
  shows "fully_vectorized r u h =
         Inr (contig (Suc (length h)) [N, N], h @ [squares r h u N D, affinities r h u N])"
proof -
  let ?f = "\<lambda>idx. t_sub r (get_at h u [idx ! 0, idx ! 2]) (get_at h u [idx ! 1, idx ! 2])"
  let ?g = "\<lambda>idx. t_pow r 2 (?f idx)"
  let ?s = "\<lambda>idx. sum_red r (map (\<lambda>k. ?g [idx ! 0, idx ! 1, k]) [0..<D])"
  let ?A = "contig (length h) [N, N, D]"
  let ?S = "contig (Suc (length h)) [N, N]"
  have p: "permute [1, 0, 2] (reshape1 u) =
           Inr (u\<lparr>sizes := [N, Suc 0, D], strides := [s0, N * s0, s1]\<rparr>)"
    unfolding reshape1_2d [OF assms]
    using permute_102 [of "u\<lparr>sizes := [Suc 0, N, D], strides := [N * s0, s0, s1]\<rparr>"
        "Suc 0" N D "N * s0" s0 s1]
    by simp
  have s: "sub r (u\<lparr>sizes := [N, Suc 0, D], strides := [s0, N * s0, s1]\<rparr>) (reshape1 u) h =
           Inr (?A, h @ [map ?f (indices [N, N, D])])"
    unfolding reshape1_2d [OF assms] by (rule sub_pair [OF assms])
  have pw: "pow_inplace r 2 ?A (h @ [map ?f (indices [N, N, D])]) = h @ [map ?g (indices [N, N, D])]"
    by (rule pow_contig) simp
  have sm: "sum_dim r 2 ?A (h @ [map ?g (indices [N, N, D])]) =
            Inr (?S, h @ [map ?g (indices [N, N, D])] @ [map ?s (indices [N, N])])"
    using sum_dim_contig3 [of "h @ [map ?g (indices [N, N, D])]" "length h" ?g N N D r]
    by simp
  have pl: "exp_inplace r ?S (mul_inplace r (- 0.25) ?S (sqrt_inplace r ?S
              (h @ [map ?g (indices [N, N, D])] @ [map ?s (indices [N, N])]))) =
            h @ [map ?g (indices [N, N, D]),
                 map (\<lambda>idx. t_exp r (t_mul r (t_sqrt r (?s idx)) (- 0.25))) (indices [N, N])]"
    using pipeline_contig [of "Suc (length h)"
        "h @ [map ?g (indices [N, N, D])] @ [map ?s (indices [N, N])]" ?s "[N, N]" r "- 0.25"]
    by (simp add: nth_append list_update_append)
  have af: "map (\<lambda>idx. t_exp r (t_mul r (t_sqrt r (?s idx)) (- 0.25))) (indices [N, N]) =
            affinities r h u N"
    unfolding affinities_def
    by (rule map_cong [OF refl]) (simp add: affinity_point [OF assms(1)])
  show ?thesis
    unfolding fully_vectorized_def Let_def p sum.case s prod.case pw sm pl af squares_def
    by (rule refl)
qed

section \<open>The loops of \<open>naive\<close>\<close>

lemma indices_single: "indices [n] = map (\<lambda>i. [i]) [0..<n]"
  by (simp add: indices.simps comp_def)

lemma indices_nil: "indices [] = [[]]"
  by (simp add: indices.simps)

lemma select_2d:
  assumes "sizes u = [M, D]" "strides u = [s0, s1]" "i < M"
  shows "select u i = Inr (u\<lparr>offs := offs u + i * s0, sizes := [D], strides := [s1]\<rparr>)"
  using assms by (simp add: select_def)

lemma select_2d_out:
  assumes "sizes u = [M, D]" "\<not> i < M"
  shows "select u i = Inl IndexError"
  using assms by (simp add: select_def split: list.splits)

lemma get_at_row:
  assumes "strides u = [s0, s1]"
  shows "get_at H (u\<lparr>offs := offs u + i * s0, sizes := sz, strides := [s1]\<rparr>) [k] =
         get_at H u [i, k]"
  using assms by (simp add: get_at_def pos_def add.assoc)

lemma bidx_single: "k < D \<Longrightarrow> bidx [D] [k] = [k]"
  by (auto simp: bidx_def)

lemma torch_dist_rows:
  assumes "sizes u = [M, D]" "strides u = [s0, s1]"
  shows "torch_dist r (u\<lparr>offs := offs u + i * s0, sizes := [D], strides := [s1]\<rparr>)
                      (u\<lparr>offs := offs u + j * s0, sizes := [D], strides := [s1]\<rparr>) H =
         Inr (contig (length H) [],
              H @ [[euclidean_distance r (point H u i) (point H u j)]])"
proof -
  let ?ui = "u\<lparr>offs := offs u + i * s0, sizes := [D], strides := [s1]\<rparr>"
  let ?uj = "u\<lparr>offs := offs u + j * s0, sizes := [D], strides := [s1]\<rparr>"
  have "map (\<lambda>idx. t_pow r 2 (t_sub r (get_at H ?ui (bidx [D] idx)) (get_at H ?uj (bidx [D] idx))))
          (indices [D]) =
        map (\<lambda>k. t_pow r 2 (t_sub r (get_at H u [i, k]) (get_at H u [j, k]))) [0..<D]"
    unfolding indices_single map_map comp_def
    by (rule map_cong [OF refl]) (simp add: bidx_single get_at_row [OF assms(2)])
  moreover have "euclidean_distance r (point H u i) (point H u j) =
        t_sqrt r (sum_red r
          (map (\<lambda>k. t_pow r 2 (t_sub r (get_at H u [i, k]) (get_at H u [j, k]))) [0..<D]))"
    by (simp add: euclidean_distance_def point_eq [OF assms(1)] zip_map_map
        zip_same_conv_map comp_def)
  ultimately show ?thesis
    by (simp add: torch_dist_def bshape_same alloc_eq)
qed

lemma unary_scalar:
  assumes "H ! b = [v]"
  shows "unary f (contig b []) H = (contig (length H) [], H @ [[f v]])"
  using assms by (simp add: unary_def alloc_eq indices_nil get_at_def pos_def)

lemma setitem2_contig:
  assumes "i < N" "j < N" "H ! b = [v]"
  shows "setitem2 (contig a [N, N]) i j (contig b []) H =
         Inr (H[a := (H ! a)[i * N + j := v]])"
  using assms
  by (simp add: setitem2_def select_def copy_into_def bshape_nil indices_nil bidx_def
      get_at_def pos_def)

lemma naive_assign_eq:
  assumes "sizes u = [M, D]" "strides u = [s0, s1]" "i < M" "j < M" "i < N" "j < N"
    "a < length H"
  shows "naive_assign r u (contig a [N, N]) i j H =
         Inr ((H @ [[euclidean_distance r (point H u i) (point H u j)],
                    [t_mul r (- 0.25) (euclidean_distance r (point H u i) (point H u j))],
                    [affinity r (point H u i) (point H u j)]])
              [a := (H ! a)[i * N + j := affinity r (point H u i) (point H u j)]])"
  using assms
  by (simp add: naive_assign_def select_2d torch_dist_rows scalar_mul_def torch_exp_def
      unary_scalar setitem2_contig affinity_def nth_append)

lemma for_range_append:
  "for_range (xs @ ys) body h =
     (case for_range xs body h of Inl e \<Rightarrow> Inl e | Inr h' \<Rightarrow> for_range ys body h')"
  by (induction xs arbitrary: h) (simp_all split: sum.splits)

lemma for_range_upt_inv:
  assumes "I 0 h"
    and "\<And>i H. i < n \<Longrightarrow> I i H \<Longrightarrow> \<exists>H'. body i H = Inr H' \<and> I (Suc i) H'"
  shows "\<exists>H'. for_range [0..<n] body h = Inr H' \<and> I n H'"
  using assms(2)
proof (induction n)
  case 0
  show ?case using assms(1) by simp
next
  case (Suc n)
  then obtain H where H: "for_range [0..<n] body h = Inr H" "I n H"
    by (metis less_Suc_eq)
  from Suc.prems [of n H] H(2) obtain H' where "body n H = Inr H'" "I (Suc n) H'"
    by auto
  with H show ?case
    by (simp add: for_range_append)
qed

lemma filled_get_at:
  assumes "filled h tgt k H" "stor u < length h"
  shows "get_at H u idx = get_at h u idx"
proof -
  from assms have "H ! stor u = take (length h) H ! stor u"
    by simp
  with assms show ?thesis
    by (simp add: get_at_def filled_def)
qed

lemma filled_point:
  assumes "filled h tgt k H" "stor u < length h"
  shows "point H u i = point h u i"
  by (simp add: point_def filled_get_at [OF assms])

lemma length_affinities: "length (affinities r h u N) = N * N"
  by (simp add: affinities_def length_indices)

lemma nth_affinities:
  assumes "i < N" "j < N"
  shows "i * N + j < N * N \<and>
         affinities r h u N ! (i * N + j) = affinity r (point h u i) (point h u j)"
proof -
  have "[i, j] \<in> set (indices [N, N])"
    using assms by (simp add: indices2)
  from cpos_nth [OF this] show ?thesis
    by (simp add: cpos_def affinities_def length_indices)
qed

lemma filled_write:
  assumes "filled h tgt k H" "k < length tgt" "v = tgt ! k"
  shows "filled h tgt (Suc k) ((H @ ts)[length h := (H ! length h)[k := v]])"
proof -
  from assms have a: "length h < length H" and b: "take (length h) H = h"
    and c: "length (H ! length h) = length tgt" and d: "take k (H ! length h) = take k tgt"
    by (simp_all add: filled_def)
  have "take (Suc k) ((H ! length h)[k := v]) = take k (H ! length h) @ [v]"
    using c assms(2) by (simp add: take_Suc_conv_app_nth)
  also have "\<dots> = take (Suc k) tgt"
    using d assms(2,3) by (simp add: take_Suc_conv_app_nth)
  finally show ?thesis
    using a b c by (simp add: filled_def nth_append)
qed

lemma naive_inner:
  assumes u: "sizes u = [M, D]" "strides u = [s0, s1]" "stor u < length h"
    and i: "i < N" "N \<le> M"
    and H: "filled h (affinities r h u N) (i * N) H"
  shows "\<exists>H'. for_range [0..<N] (\<lambda>j. naive_assign r u (contig (length h) [N, N]) i j) H = Inr H' \<and>
              filled h (affinities r h u N) (Suc i * N) H'"
proof -
  let ?I = "\<lambda>j H. filled h (affinities r h u N) (i * N + j) H"
  have "\<exists>H'. for_range [0..<N] (\<lambda>j. naive_assign r u (contig (length h) [N, N]) i j) H = Inr H' \<and>
             ?I N H'"
  proof (rule for_range_upt_inv [where I = ?I])
    show "?I 0 H" using H by simp
  next
    fix j H1 assume j: "j < N" and H1: "?I j H1"
    from H1 have len: "length h < length H1" by (simp add: filled_def)
    have pt: "point H1 u i = point h u i" "point H1 u j = point h u j"
      by (rule filled_point [OF H1 u(3)])+
    from nth_affinities [OF i(1) j, of r h u]
    have nth: "i * N + j < length (affinities r h u N)"
      "affinity r (point h u i) (point h u j) = affinities r h u N ! (i * N + j)"
      by (simp_all add: length_affinities)
    have "naive_assign r u (contig (length h) [N, N]) i j H1 =
          Inr ((H1 @ [[euclidean_distance r (point H1 u i) (point H1 u j)],
                    [t_mul r (- 0.25) (euclidean_distance r (point H1 u i) (point H1 u j))],
                    [affinity r (point H1 u i) (point H1 u j)]])
              [length h := (H1 ! length h)[i * N + j := affinity r (point H1 u i) (point H1 u j)]])"
    proof (rule naive_assign_eq [OF u(1,2) _ _ i(1) j len])
      show "i < M" "j < M" using i j by simp_all
    qed
    moreover have "?I (Suc j) ((H1 @ [[euclidean_distance r (point H1 u i) (point H1 u j)],
                    [t_mul r (- 0.25) (euclidean_distance r (point H1 u i) (point H1 u j))],
                    [affinity r (point H1 u i) (point H1 u j)]])
              [length h := (H1 ! length h)[i * N + j := affinity r (point H1 u i) (point H1 u j)]])"
      using filled_write [OF H1 nth(1)] nth(2) pt by simp
    ultimately show "\<exists>H'. naive_assign r u (contig (length h) [N, N]) i j H1 = Inr H' \<and> ?I (Suc j) H'"
      by blast
  qed
  then show ?thesis by (simp add: add.commute)
qed

lemma filled_zeros:
  "length tgt = N * N \<Longrightarrow> filled h tgt 0 (h @ [replicate (N * N) 0])"
  by (simp add: filled_def)

lemma filled_full:
  assumes "filled h tgt (length tgt) H"
  shows "length h < length H \<and> take (length h) H = h \<and> H ! length h = tgt"
proof -
  from assms have "take (length (H ! length h)) (H ! length h) = tgt"
    by (simp add: filled_def)
  then have "H ! length h = tgt" by simp
  with assms show ?thesis by (simp add: filled_def)
qed

lemma naive_loops:
  assumes u: "sizes u = [M, D]" "strides u = [s0, s1]" "stor u < length h" and N: "N \<le> M"
  shows "\<exists>H'. for_range [0..<N]
            (\<lambda>i. for_range [0..<N] (\<lambda>j. naive_assign r u (contig (length h) [N, N]) i j))
            (h @ [replicate (N * N) 0]) = Inr H' \<and>
          length h < length H' \<and> take (length h) H' = h \<and>
          H' ! length h = affinities r h u N"
proof -
  let ?I = "\<lambda>i H. filled h (affinities r h u N) (i * N) H"
  have "\<exists>H'. for_range [0..<N]
            (\<lambda>i. for_range [0..<N] (\<lambda>j. naive_assign r u (contig (length h) [N, N]) i j))
            (h @ [replicate (N * N) 0]) = Inr H' \<and> ?I N H'"
  proof (rule for_range_upt_inv [where I = ?I])
    show "?I 0 (h @ [replicate (N * N) 0])"
      using filled_zeros [OF length_affinities] by simp
  next
    fix i H assume "i < N" "?I i H"
    then show "\<exists>H'. for_range [0..<N] (\<lambda>j. naive_assign r u (contig (length h) [N, N]) i j) H = Inr H' \<and>
                 ?I (Suc i) H'"
      using naive_inner [OF u _ N] by blast
  qed
  then obtain H' where H': "for_range [0..<N]
            (\<lambda>i. for_range [0..<N] (\<lambda>j. naive_assign r u (contig (length h) [N, N]) i j))
            (h @ [replicate (N * N) 0]) = Inr H'" "filled h (affinities r h u N) (N * N) H'"
    by blast
  from filled_full [of h "affinities r h u N" H'] H'(2)
  have "length h < length H' \<and> take (length h) H' = h \<and> H' ! length h = affinities r h u N"
    by (simp add: length_affinities)
  with H'(1) show ?thesis by blast
qed

lemma zeros_eq: "zeros [N, N] h = (contig (length h) [N, N], h @ [replicate (N * N) 0])"
  by (simp add: zeros_def alloc_eq)

lemma naive_sized_ok:
  assumes "sizes u = [M, D]" "strides u = [s0, s1]" "stor u < length h" "N \<le> M"
  shows "\<exists>H'. naive_sized r u N h = Inr (contig (length h) [N, N], H') \<and>
          length h < length H' \<and> take (length h) H' = h \<and>
          H' ! length h = affinities r h u N"
  using naive_loops [OF assms, of r]
  by (auto simp: naive_sized_def zeros_eq)

lemma naive_ok:
  assumes "sizes u = [N, D]" "strides u = [s0, s1]" "stor u < length h"
  shows "\<exists>H'. naive r u h = Inr (contig (length h) [N, N], H') \<and>
          length h < length H' \<and> take (length h) H' = h \<and>
          H' ! length h = affinities r h u N"
  using naive_loops [OF assms order_refl, of r] assms(1)
  by (auto simp: naive_def shape0_def zeros_eq)

section \<open>The loop of \<open>one_dim_vectorized\<close>\<close>

lemma bidx_row: "j < M \<Longrightarrow> k < D \<Longrightarrow> bidx [D] [j, k] = [k] \<and> bidx [M, D] [j, k] = [j, k]"
  by (auto simp: bidx_def)

lemma sub_row:
  assumes "sizes u = [M, D]" "strides u = [s0, s1]"
  shows "sub r (u\<lparr>offs := offs u + i * s0, sizes := [D], strides := [s1]\<rparr>) u H =
         Inr (contig (length H) [M, D],
              H @ [map (\<lambda>idx. t_sub r (get_at H u [i, idx ! 1]) (get_at H u [idx ! 0, idx ! 1]))
                       (indices [M, D])])"
proof -
  let ?ui = "u\<lparr>offs := offs u + i * s0, sizes := [D], strides := [s1]\<rparr>"
  have eq: "map (\<lambda>idx. t_sub r (get_at H ?ui (bidx [D] idx)) (get_at H u (bidx [M, D] idx)))
          (indices [M, D]) =
        map (\<lambda>idx. t_sub r (get_at H u [i, idx ! 1]) (get_at H u [idx ! 0, idx ! 1]))
          (indices [M, D])"
  proof (rule map_cong [OF refl])
    fix idx assume "idx \<in> set (indices [M, D])"
    then obtain j k where "j < M" "k < D" "idx = [j, k]"
      unfolding indices2 by blast
    then show "t_sub r (get_at H ?ui (bidx [D] idx)) (get_at H u (bidx [M, D] idx)) =
               t_sub r (get_at H u [i, idx ! 1]) (get_at H u [idx ! 0, idx ! 1])"
      by (simp add: bidx_row get_at_row [OF assms(2)])
  qed
  show ?thesis
    using assms by (simp add: sub_def bshape_row alloc_eq eq)
qed

lemma fold_write_segment:
  "off + n \<le> length xs \<Longrightarrow>
   fold (\<lambda>j ys. ys[off + j := g j]) [0..<n] xs =
     take off xs @ map g [0..<n] @ drop (off + n) xs"
proof (induction n)
  case 0
  show ?case by simp
next
  case (Suc n)
  then have n: "off + n < length xs" by simp
  have "(take off xs @ map g [0..<n] @ drop (off + n) xs)[off + n := g n] =
        take off xs @ map g [0..<n] @ g n # drop (Suc (off + n)) xs"
    using n by (simp add: list_update_append flip: Cons_nth_drop_Suc)
  with Suc n show ?case by simp
qed

lemma setitem_row_contig:
  assumes "i < N" "H ! b = map g (indices [N])" "i * N + N \<le> length (H ! a)"
  shows "setitem_row (contig a [N, N]) i (contig b [N]) H =
         Inr (H[a := take (i * N) (H ! a) @ map g (indices [N]) @ drop (i * N + N) (H ! a)])"
proof -
  have "fold (\<lambda>idx xs. xs[i * N + hd idx := get_at H (contig b [N]) (bidx [N] idx)])
          (indices [N]) (H ! a) =
        fold (\<lambda>j xs. xs[i * N + j := g [j]]) [0..<N] (H ! a)"
    unfolding indices_single fold_map comp_def
  proof (rule fold_cong [OF refl refl])
    fix j assume "j \<in> set [0..<N]"
    then have j: "j < N" by simp
    then have "[j] \<in> set (indices [N])" by (simp add: indices1)
    from get_contig [OF this assms(2)] j
    show "(\<lambda>xs. xs[i * N + hd [j] := get_at H (contig b [N]) (bidx [N] [j])]) =
          (\<lambda>xs. xs[i * N + j := g [j]])"
      by (simp add: bidx_single)
  qed
  also have "\<dots> = take (i * N) (H ! a) @ map (\<lambda>j. g [j]) [0..<N] @ drop (i * N + N) (H ! a)"
    by (rule fold_write_segment [OF assms(3)])
  finally have eq: "fold (\<lambda>idx xs. xs[i * N + hd idx := get_at H (contig b [N]) (bidx [N] idx)])
          (indices [N]) (H ! a) =
       take (i * N) (H ! a) @ map g (indices [N]) @ drop (i * N + N) (H ! a)"
    by (simp add: indices_single comp_def)
  have pos: "\<And>idx. idx \<in> set (indices [N]) \<Longrightarrow>
       pos (contig a [N, N]\<lparr>offs := i * N, sizes := [N], strides := [Suc 0]\<rparr>) idx = i * N + hd idx"
    by (auto simp: indices1 pos_def)
  have "fold (\<lambda>idx xs. xs[pos (contig a [N, N]\<lparr>offs := i * N, sizes := [N], strides := [Suc 0]\<rparr>) idx :=
                            get_at H (contig b [N]) (bidx [N] idx)])
          (indices [N]) (H ! a) =
        fold (\<lambda>idx xs. xs[i * N + hd idx := get_at H (contig b [N]) (bidx [N] idx)])
          (indices [N]) (H ! a)"
    by (rule fold_cong [OF refl refl]) (simp add: pos)
  with eq show ?thesis
    using assms(1) by (simp add: setitem_row_def select_def copy_into_def bshape_same)
qed

lemma setitem_row_mismatch:
  assumes "i < N" "M \<noteq> N" "M \<noteq> Suc 0"
  shows "setitem_row (contig a [N, N]) i (contig b [M]) H = Inl ShapeError"
  using assms by (auto simp: setitem_row_def select_def copy_into_def bshape_def)

lemma one_dim_row_pipeline:
  assumes "sizes u = [M, D]" "strides u = [s0, s1]" "i < M"
  shows "one_dim_row r u result i H =
         setitem_row result i (contig (Suc (length H)) [M])
           (H @ [row_squares r H u i M D, affinity_row r H u i M])"
proof -
  let ?f = "\<lambda>idx. t_sub r (get_at H u [i, idx ! 1]) (get_at H u [idx ! 0, idx ! 1])"
  let ?g = "\<lambda>idx. t_pow r 2 (?f idx)"
  let ?s = "\<lambda>idx. sum_red r (map (\<lambda>k. ?g [idx ! 0, k]) [0..<D])"
  let ?A = "contig (length H) [M, D]"
  let ?S = "contig (Suc (length H)) [M]"
  let ?ui = "u\<lparr>offs := offs u + i * s0, sizes := [D], strides := [s1]\<rparr>"
  have sl: "select u i = Inr ?ui"
    by (rule select_2d [OF assms])
  have s: "sub r ?ui u H = Inr (?A, H @ [map ?f (indices [M, D])])"
    by (rule sub_row [OF assms(1,2)])
  have pw: "pow_inplace r 2 ?A (H @ [map ?f (indices [M, D])]) = H @ [map ?g (indices [M, D])]"
    by (rule pow_contig) simp
  have sm: "sum_dim r 1 ?A (H @ [map ?g (indices [M, D])]) =
            Inr (?S, H @ [map ?g (indices [M, D])] @ [map ?s (indices [M])])"
    using sum_dim_contig2 [of "H @ [map ?g (indices [M, D])]" "length H" ?g M D r]
    by simp
  have pl: "exp_inplace r ?S (mul_inplace r (- 0.25) ?S (sqrt_inplace r ?S
              (H @ [map ?g (indices [M, D])] @ [map ?s (indices [M])]))) =
            H @ [map ?g (indices [M, D]),
                 map (\<lambda>idx. t_exp r (t_mul r (t_sqrt r (?s idx)) (- 0.25))) (indices [M])]"
    using pipeline_contig [of "Suc (length H)"
        "H @ [map ?g (indices [M, D])] @ [map ?s (indices [M])]" ?s "[M]" r "- 0.25"]
    by (simp add: nth_append list_update_append)
  have af: "map (\<lambda>idx. t_exp r (t_mul r (t_sqrt r (?s idx)) (- 0.25))) (indices [M]) =
            affinity_row r H u i M"
    unfolding affinity_row_def
    by (rule map_cong [OF refl]) (simp add: affinity_point [OF assms(1)])
  show ?thesis
    unfolding one_dim_row_def sl sum.case s prod.case pw sm pl af row_squares_def
    by (rule refl)
qed

lemma one_dim_row_mismatch:
  assumes "sizes u = [M, D]" "strides u = [s0, s1]" "i < M" "i < N" "M \<noteq> N" "M \<noteq> Suc 0"
  shows "one_dim_row r u (contig a [N, N]) i H = Inl ShapeError"
  unfolding one_dim_row_pipeline [OF assms(1,2,3)]
  by (rule setitem_row_mismatch [OF assms(4,5,6)])

lemma one_dim_row_eq:
  assumes "sizes u = [N, D]" "strides u = [s0, s1]" "i < N" "a < length H"
    "i * N + N \<le> length (H ! a)"
  shows "one_dim_row r u (contig a [N, N]) i H =
         Inr ((H @ [row_squares r H u i N D, affinity_row r H u i N])
              [a := take (i * N) (H ! a) @ affinity_row r H u i N @ drop (i * N + N) (H ! a)])"
proof -
  let ?H = "H @ [row_squares r H u i N D, affinity_row r H u i N]"
  have "setitem_row (contig a [N, N]) i (contig (Suc (length H)) [N]) ?H =
      Inr (?H[a := take (i * N) (?H ! a) @
        map (\<lambda>idx. affinity r (point H u i) (point H u (idx ! 0))) (indices [N]) @
        drop (i * N + N) (?H ! a)])"
    using assms(4,5)
    by (intro setitem_row_contig [OF assms(3)]) (simp_all add: nth_append affinity_row_def)
  then show ?thesis
    unfolding one_dim_row_pipeline [OF assms(1,2,3)]
    using assms(4) by (simp add: nth_append affinity_row_def)
qed

lemma affinity_row_eq:
  assumes "i < N"
  shows "affinity_row r h u i N = take N (drop (i * N) (affinities r h u N))"
proof (rule nth_equalityI)
  have le: "i * N + N \<le> N * N"
    using assms mult_le_mono1 [of "Suc i" N N] by simp
  then show len: "length (affinity_row r h u i N) = length (take N (drop (i * N) (affinities r h u N)))"
    by (simp add: affinity_row_def length_indices length_affinities)
  fix j assume "j < length (affinity_row r h u i N)"
  then have j: "j < N" by (simp add: affinity_row_def length_indices)
  have "i * N \<le> i * N + N" by simp
  from this le have "i * N \<le> N * N" by (rule order_trans)
  then have "i * N \<le> length (affinities r h u N)"
    by (simp only: length_affinities)
  with nth_affinities [OF assms j, of r h u] j
  show "affinity_row r h u i N ! j = take N (drop (i * N) (affinities r h u N)) ! j"
    by (simp add: affinity_row_def indices_single nth_drop)
qed

lemma filled_write_row:
  assumes "filled h tgt k H" "k + n \<le> length tgt" "row = take n (drop k tgt)"
  shows "filled h tgt (k + n)
           ((H @ ts)[length h := take k (H ! length h) @ row @ drop (k + n) (H ! length h)])"
proof -
  from assms have a: "length h < length H" and b: "take (length h) H = h"
    and c: "length (H ! length h) = length tgt" and d: "take k (H ! length h) = take k tgt"
    by (simp_all add: filled_def)
  have "take (k + n) (take k (H ! length h) @ row @ drop (k + n) (H ! length h)) =
        take k tgt @ row"
    using assms(2,3) c d by simp
  also have "\<dots> = take (k + n) tgt"
    using assms(3) by (simp add: take_add)
  finally show ?thesis
    using a b c assms(2,3) by (simp add: filled_def nth_append)
qed

lemma one_dim_loop:
  assumes u: "sizes u = [N, D]" "strides u = [s0, s1]" "stor u < length h"
  shows "\<exists>H'. for_range [0..<N] (one_dim_row r u (contig (length h) [N, N]))
            (h @ [replicate (N * N) 0]) = Inr H' \<and>
          length h < length H' \<and> take (length h) H' = h \<and>
          H' ! length h = affinities r h u N"
proof -
  let ?I = "\<lambda>i H. filled h (affinities r h u N) (i * N) H"
  have "\<exists>H'. for_range [0..<N] (one_dim_row r u (contig (length h) [N, N]))
            (h @ [replicate (N * N) 0]) = Inr H' \<and> ?I N H'"
  proof (rule for_range_upt_inv [where I = ?I])
    show "?I 0 (h @ [replicate (N * N) 0])"
      using filled_zeros [OF length_affinities] by simp
  next
    fix i H assume i: "i < N" and H: "?I i H"
    have le: "i * N + N \<le> N * N"
      using i mult_le_mono1 [of "Suc i" N N] by simp
    from H have len: "length h < length H" "length (H ! length h) = N * N"
      by (simp_all add: filled_def length_affinities)
    have pt: "\<And>j. point H u j = point h u j"
      by (rule filled_point [OF H u(3)])
    have row: "affinity_row r H u i N = affinity_row r h u i N"
      by (simp add: affinity_row_def pt)
    have "one_dim_row r u (contig (length h) [N, N]) i H =
         Inr ((H @ [row_squares r H u i N D, affinity_row r H u i N])
              [length h := take (i * N) (H ! length h) @ affinity_row r H u i N @
                 drop (i * N + N) (H ! length h)])"
      using len le by (intro one_dim_row_eq [OF u(1,2) i]) simp_all
    moreover have "?I (Suc i) ((H @ [row_squares r H u i N D, affinity_row r H u i N])
              [length h := take (i * N) (H ! length h) @ affinity_row r H u i N @
                 drop (i * N + N) (H ! length h)])"
      using filled_write_row [OF H, of N "affinity_row r h u i N"] le
        affinity_row_eq [OF i, of r h u]
      by (simp add: row length_affinities add.commute)
    ultimately show "\<exists>H'. one_dim_row r u (contig (length h) [N, N]) i H = Inr H' \<and> ?I (Suc i) H'"
      by blast
  qed
  then obtain H' where H': "for_range [0..<N] (one_dim_row r u (contig (length h) [N, N]))
            (h @ [replicate (N * N) 0]) = Inr H'" "filled h (affinities r h u N) (N * N) H'"
    by blast
  from filled_full [of h "affinities r h u N" H'] H'(2)
  have "length h < length H' \<and> take (length h) H' = h \<and> H' ! length h = affinities r h u N"
    by (simp add: length_affinities)
  with H'(1) show ?thesis by blast
qed

lemma one_dim_vectorized_ok:
  assumes "sizes u = [N, D]" "strides u = [s0, s1]" "stor u < length h"
  shows "\<exists>H'. one_dim_vectorized r u h = Inr (contig (length h) [N, N], H') \<and>
          length h < length H' \<and> take (length h) H' = h \<and>
          H' ! length h = affinities r h u N"
  using one_dim_loop [OF assms, of r] assms(1)
  by (auto simp: one_dim_vectorized_def shape0_def zeros_eq)

section \<open>Results of the three computations\<close>

lemma wf_tensor_2d:
  assumes "wf_tensor h u" "sizes u = [N, D]"
  obtains s0 s1 where "strides u = [s0, s1]" "stor u < length h"
proof -
  from assms have "length (strides u) = Suc (Suc 0)" "stor u < length h"
    by (simp_all add: wf_tensor_def)
  then show ?thesis
    using that by (auto simp: length_Suc_conv)
qed

lemma contents_contig:
  assumes "H ! a = map f (indices sz)"
  shows "contents H (contig a sz) = (sz, map f (indices sz))"
proof -
  have "map (get_at H (contig a sz)) (indices sz) = map f (indices sz)"
    by (rule map_cong [OF refl]) (rule get_contig [OF _ assms])
  then show ?thesis by (simp add: contents_def)
qed

lemma contents_affinities:
  assumes "H ! a = affinities r h u N"
  shows "contents H (contig a [N, N]) = ([N, N], affinities r h u N)"
  using contents_contig [of H a _ "[N, N]"] assms unfolding affinities_def by simp

lemma get_at_affinities:
  assumes "H ! a = affinities r h u N" "i < N" "j < N"
  shows "get_at H (contig a [N, N]) [i, j] = affinity r (point h u i) (point h u j)"
proof -
  have "[i, j] \<in> set (indices [N, N])"
    using assms(2,3) by (simp add: indices2)
  from get_contig [OF this, of H a
      "\<lambda>idx. affinity r (point h u (idx ! 0)) (point h u (idx ! 1))"] assms(1)
  show ?thesis
    unfolding affinities_def by simp
qed

lemma contents_frame:
  assumes "take (length h) H = h" "stor u < length h"
  shows "contents H u = contents h u"
proof -
  have "take (length h) H ! stor u = H ! stor u"
    using assms(2) by (rule nth_take)
  with assms(1) have "H ! stor u = h ! stor u" by simp
  then show ?thesis
    by (simp add: contents_def get_at_def [abs_def])
qed

text \<open>What each computation returns, and what it leaves in the store.\<close>

lemma naive_result:
  assumes "wf_tensor h u" "sizes u = [N, D]"
  obtains A H where "naive r u h = Inr (A, H)" "sizes A = [N, N]"
    "contents H A = ([N, N], affinities r h u N)"
    "\<And>i j. i < N \<Longrightarrow> j < N \<Longrightarrow> get_at H A [i, j] = affinity r (point h u i) (point h u j)"
    "take (length h) H = h"
proof -
  from assms obtain s0 s1 where s: "strides u = [s0, s1]" "stor u < length h"
    by (rule wf_tensor_2d)
  from naive_ok [OF assms(2) s, of r] obtain H where
    H: "naive r u h = Inr (contig (length h) [N, N], H)" "take (length h) H = h"
      "H ! length h = affinities r h u N"
    by blast
  show ?thesis
  proof (rule that [OF H(1)])
    show "sizes (contig (length h) [N, N]) = [N, N]" by simp
    show "contents H (contig (length h) [N, N]) = ([N, N], affinities r h u N)"
      by (rule contents_affinities [OF H(3)])
    show "take (length h) H = h" by (rule H(2))
    show "get_at H (contig (length h) [N, N]) [i, j] = affinity r (point h u i) (point h u j)"
      if "i < N" "j < N" for i j
      by (rule get_at_affinities [OF H(3) that])
  qed
qed

lemma one_dim_vectorized_result:
  assumes "wf_tensor h u" "sizes u = [N, D]"
  obtains A H where "one_dim_vectorized r u h = Inr (A, H)" "sizes A = [N, N]"
    "contents H A = ([N, N], affinities r h u N)"
    "\<And>i j. i < N \<Longrightarrow> j < N \<Longrightarrow> get_at H A [i, j] = affinity r (point h u i) (point h u j)"
    "take (length h) H = h"
proof -
  from assms obtain s0 s1 where s: "strides u = [s0, s1]" "stor u < length h"
    by (rule wf_tensor_2d)
  from one_dim_vectorized_ok [OF assms(2) s, of r] obtain H where
    H: "one_dim_vectorized r u h = Inr (contig (length h) [N, N], H)" "take (length h) H = h"
      "H ! length h = affinities r h u N"
    by blast
  show ?thesis
  proof (rule that [OF H(1)])
    show "sizes (contig (length h) [N, N]) = [N, N]" by simp
    show "contents H (contig (length h) [N, N]) = ([N, N], affinities r h u N)"
      by (rule contents_affinities [OF H(3)])
    show "take (length h) H = h" by (rule H(2))
    show "get_at H (contig (length h) [N, N]) [i, j] = affinity r (point h u i) (point h u j)"
      if "i < N" "j < N" for i j
      by (rule get_at_affinities [OF H(3) that])
  qed
qed

lemma fully_vectorized_result:
  assumes "wf_tensor h u" "sizes u = [N, D]"
  obtains A H where "fully_vectorized r u h = Inr (A, H)" "sizes A = [N, N]"
    "contents H A = ([N, N], affinities r h u N)"
    "\<And>i j. i < N \<Longrightarrow> j < N \<Longrightarrow> get_at H A [i, j] = affinity r (point h u i) (point h u j)"
    "take (length h) H = h"
proof -
  from assms obtain s0 s1 where s: "strides u = [s0, s1]" "stor u < length h"
    by (rule wf_tensor_2d)
  let ?H = "h @ [squares r h u N D, affinities r h u N]"
  have H: "fully_vectorized r u h = Inr (contig (Suc (length h)) [N, N], ?H)"
    by (rule fully_vectorized_eq [OF assms(2) s(1)])
  have nth: "?H ! Suc (length h) = affinities r h u N"
    by (simp add: nth_append)
  show ?thesis
  proof (rule that [OF H])
    show "sizes (contig (Suc (length h)) [N, N]) = [N, N]" by simp
    show "contents ?H (contig (Suc (length h)) [N, N]) = ([N, N], affinities r h u N)"
      by (rule contents_affinities [OF nth])
    show "take (length h) ?H = h" by simp
    show "get_at ?H (contig (Suc (length h)) [N, N]) [i, j] = affinity r (point h u i) (point h u j)"
      if "i < N" "j < N" for i j
      by (rule get_at_affinities [OF nth that])
  qed
qed

section \<open>Facts on the example inputs and on the arithmetic\<close>

lemma indices_22: "indices [2, 2] = [[0, 0], [0, 1], [1, 0], [1, 1]]"
  by (simp add: indices.simps numeral_2_eq_2)

lemma wf_two: "wf_tensor h_two u_two"
  by (simp add: wf_tensor_def h_two_def u_two_def indices_22 pos_def)

lemma wf_empty: "wf_tensor h_empty u_empty"
  by (simp add: wf_tensor_def h_empty_def u_empty_def indices.simps)

lemma returned_Inr: "returned (Inr (A, H)) = Some (contents H A)"
  by (simp add: returned_def)

lemma entry_Inr: "entry (Inr (A, H)) i j = Some (get_at H A [i, j])"
  by (simp add: entry_def)

lemma point_pair:
  "sizes u = [N, 2] \<Longrightarrow> point h u i = [get_at h u [i, 0], get_at h u [i, 1]]"
  by (simp add: point_def numeral_2_eq_2)

lemma affinity_pair:
  "affinity r [x1, y1] [x2, y2] =
     t_exp r (t_mul r (- 0.25) (t_sqrt r (t_add r (t_pow r 2 (t_sub r x1 x2))
                                                   (t_pow r 2 (t_sub r y1 y2)))))"
  by (simp add: affinity_def euclidean_distance_def)

lemma wf_far: "wf_tensor h_far u_far"
  by (simp add: wf_tensor_def h_far_def u_far_def indices_22 pos_def)

lemma indices_12: "indices [Suc 0, 2] = [[0, 0], [0, 1]]"
  by (simp add: indices.simps numeral_2_eq_2)

lemma indices_11: "indices [Suc 0, Suc 0] = [[0, 0]]"
  by (simp add: indices.simps)

lemma wf_one: "wf_tensor h_one u_one"
  by (simp add: wf_tensor_def h_one_def u_one_def indices_12 pos_def)

lemma affinity_self:
  assumes "r 0 = 0" "r 1 = 1"
  shows "affinity r [x, y] [x, y] = 1"
  using assms
  by (simp add: affinity_pair t_exp_def t_mul_def t_sqrt_def t_add_def t_pow_def t_sub_def)

lemma affinity_sym:
  assumes "\<And>x. r (- x) = - r x"
  shows "affinity r [x1, y1] [x2, y2] = affinity r [x2, y2] [x1, y1]"
proof -
  have "(r (a - b))\<^sup>2 = (r (b - a))\<^sup>2" for a b
    using assms [of "b - a"] by simp
  then show ?thesis
    by (simp add: affinity_pair t_exp_def t_mul_def t_sqrt_def t_add_def t_pow_def t_sub_def)
qed

lemma affinity_range:
  assumes "mono r" "r 0 = 0" "r 1 = 1"
  shows "0 \<le> affinity r [x1, y1] [x2, y2] \<and> affinity r [x1, y1] [x2, y2] \<le> 1"
proof -
  have nonneg: "0 \<le> r z" if "0 \<le> z" for z
    using monoD [OF assms(1) that] assms(2) by simp
  define s where "s = t_add r (t_pow r 2 (t_sub r x1 x2)) (t_pow r 2 (t_sub r y1 y2))"
  define m where "m = t_mul r (- 0.25) (t_sqrt r s)"
  have "0 \<le> t_pow r 2 (t_sub r x1 x2)" "0 \<le> t_pow r 2 (t_sub r y1 y2)"
    by (simp_all add: t_pow_def nonneg)
  then have "0 \<le> s"
    by (simp add: s_def t_add_def nonneg)
  then have "0 \<le> t_sqrt r s"
    by (simp add: t_sqrt_def nonneg)
  then have "- 0.25 * t_sqrt r s \<le> 0"
    by simp
  from monoD [OF assms(1) this] have "m \<le> 0"
    by (simp add: m_def t_mul_def assms(2))
  then have "exp m \<le> 1" by simp
  from monoD [OF assms(1) this] have "r (exp m) \<le> 1"
    by (simp add: assms(3))
  moreover have "0 \<le> r (exp m)"
    by (rule nonneg) simp
  ultimately show ?thesis
    by (simp add: affinity_pair t_exp_def m_def s_def)
qed

lemma affinity_pos:
  assumes "\<And>y. 0 < y \<Longrightarrow> 0 < r y"
  shows "0 < affinity r x y"
  by (simp add: affinity_def t_exp_def assms)

lemma entries:
  assumes "wf_tensor h u" "sizes u = [N, D]" "i < N" "j < N"
  shows "entry (naive r u h) i j = Some (affinity r (point h u i) (point h u j)) \<and>
         entry (one_dim_vectorized r u h) i j = Some (affinity r (point h u i) (point h u j)) \<and>
         entry (fully_vectorized r u h) i j = Some (affinity r (point h u i) (point h u j))"
proof -
  from assms(1,2) obtain A H where "naive r u h = Inr (A, H)"
    "\<And>i j. i < N \<Longrightarrow> j < N \<Longrightarrow> get_at H A [i, j] = affinity r (point h u i) (point h u j)"
    by (rule naive_result [where r = r]) blast
  moreover from assms(1,2) obtain B H' where "one_dim_vectorized r u h = Inr (B, H')"
    "\<And>i j. i < N \<Longrightarrow> j < N \<Longrightarrow> get_at H' B [i, j] = affinity r (point h u i) (point h u j)"
    by (rule one_dim_vectorized_result [where r = r]) blast
  moreover from assms(1,2) obtain C H'' where "fully_vectorized r u h = Inr (C, H'')"
    "\<And>i j. i < N \<Longrightarrow> j < N \<Longrightarrow> get_at H'' C [i, j] = affinity r (point h u i) (point h u j)"
    by (rule fully_vectorized_result [where r = r]) blast
  ultimately show ?thesis
    using assms(3,4) by (simp add: entry_Inr)
qed

lemma returns:
  assumes "wf_tensor h u" "sizes u = [N, D]"
  shows "returned (naive r u h) = Some ([N, N], affinities r h u N) \<and>
         returned (one_dim_vectorized r u h) = Some ([N, N], affinities r h u N) \<and>
         returned (fully_vectorized r u h) = Some ([N, N], affinities r h u N)"
proof -
  from assms obtain A H where "naive r u h = Inr (A, H)"
    "contents H A = ([N, N], affinities r h u N)"
    by (rule naive_result [where r = r])
  moreover from assms obtain B H' where "one_dim_vectorized r u h = Inr (B, H')"
    "contents H' B = ([N, N], affinities r h u N)"
    by (rule one_dim_vectorized_result [where r = r])
  moreover from assms obtain C H'' where "fully_vectorized r u h = Inr (C, H'')"
    "contents H'' C = ([N, N], affinities r h u N)"
    by (rule fully_vectorized_result [where r = r])
  ultimately show ?thesis
    by (simp add: returned_Inr)
qed

lemma exp_small: "exp (- 250 :: real) \<le> 1 / 2 ^ 150"
proof -
  have "(2::real) \<le> exp 1"
    using exp_ge_add_one_self [of "1::real"] by simp
  then have "(2::real) ^ 250 \<le> exp 1 ^ 250"
    by (rule power_mono) simp
  also have "\<dots> = exp (250 :: real)"
    using exp_of_nat_mult [of 250 "1::real"] by simp
  finally have "(2::real) ^ 150 \<le> exp 250"
    by simp
  then have "inverse (exp (250::real)) \<le> inverse (2 ^ 150)"
    by (intro le_imp_inverse_le) simp_all
  then show ?thesis
    by (simp add: exp_minus inverse_eq_divide)
qed

lemma flush_zero: "flush 0 = 0"
  by (simp add: flush_def)

lemma flush_big: "1 \<le> \<bar>x\<bar> \<Longrightarrow> flush x = x"
proof -
  assume a: "1 \<le> \<bar>x\<bar>"
  have "(1::real) / 2 ^ 150 < 1" by simp
  with a have "\<not> \<bar>x\<bar> \<le> 1 / 2 ^ 150" by linarith
  then show ?thesis by (simp only: flush_def if_False)
qed

lemma flush_mono: "mono flush"
proof (rule monoI)
  fix x y :: real assume "x \<le> y"
  have "(0::real) < 1 / 2 ^ 150" by simp
  with \<open>x \<le> y\<close> show "flush x \<le> flush y"
    unfolding flush_def by (simp only: split: if_splits) (auto simp: abs_le_iff)
qed

lemma sqrt_1000000: "sqrt 1000000 = 1000"
proof -
  have "sqrt ((1000::real)\<^sup>2) = 1000" by simp
  then show ?thesis by simp
qed

lemma sqrt_16: "sqrt 16 = 4"
proof -
  have "sqrt ((4::real)\<^sup>2) = 4" by simp
  then show ?thesis by simp
qed

lemma affinity_far: "affinity flush [0, 0] [1000, 0] = 0"
proof -
  have 1: "t_sub flush 0 1000 = - 1000" "t_sub flush 0 0 = 0"
    by (simp_all add: t_sub_def flush_big flush_zero)
  have 2: "t_pow flush 2 (- 1000) = 1000000" "t_pow flush 2 0 = 0"
    by (simp_all add: t_pow_def flush_big flush_zero)
  have 3: "t_add flush 1000000 0 = 1000000"
    by (simp add: t_add_def flush_big)
  have 4: "t_sqrt flush 1000000 = 1000"
    by (simp add: t_sqrt_def sqrt_1000000 flush_big)
  have 5: "t_mul flush (- 0.25) 1000 = - 250"
    by (simp add: t_mul_def flush_big)
  have 6: "t_exp flush (- 250) = 0"
    using exp_small by (simp add: t_exp_def flush_def)
  show ?thesis
    by (simp only: affinity_pair 1 2 3 4 5 6)
qed

lemma point_far: "point h_far u_far 0 = [0, 0]" "point h_far u_far 1 = [1000, 0]"
  by (simp_all add: point_def get_at_def pos_def h_far_def u_far_def numeral_2_eq_2)

lemma wf_same: "wf_tensor h_same u_same"
  by (simp add: wf_tensor_def h_same_def u_same_def indices_22 pos_def)

lemma indices_23: "indices [2, 3] = [[0, 0], [0, 1], [0, 2], [1, 0], [1, 1], [1, 2]]"
  by (simp add: indices.simps numeral_2_eq_2 numeral_3_eq_3)

lemma wf_three: "wf_tensor h_three u_three"
  by (simp add: wf_tensor_def h_three_def u_three_def indices_23 pos_def)

lemma point_two: "point h_two u_two 0 = [0, 0]" "point h_two u_two 1 = [4, 0]"
  by (simp_all add: point_def get_at_def pos_def h_two_def u_two_def numeral_2_eq_2)

lemma point_same: "point h_same u_same 0 = [0, 0]" "point h_same u_same 1 = [0, 0]"
  by (simp_all add: point_def get_at_def pos_def h_same_def u_same_def numeral_2_eq_2)

lemma point_three: "point h_three u_three 0 = [0, 0, 0]" "point h_three u_three (Suc 0) = [3, 4, 12]"
  by (simp_all add: point_def get_at_def pos_def h_three_def u_three_def numeral_3_eq_3)

lemma sqrt_169: "sqrt 169 = 13"
proof -
  have "sqrt ((13::real)\<^sup>2) = 13" by simp
  then show ?thesis by simp
qed

lemma affinity_three:
  "affinity (\<lambda>x. x) [0, 0, 0] [3, 4, 12] = exp (- (13 / 4))"
  "affinity (\<lambda>x. x) [3, 4, 12] [0, 0, 0] = exp (- (13 / 4))"
  "affinity (\<lambda>x. x) [0, 0, 0] [0, 0, 0] = 1"
  "affinity (\<lambda>x. x) [3, 4, 12] [3, 4, 12] = 1"
  by (simp_all add: affinity_def euclidean_distance_def t_exp_def t_mul_def t_sqrt_def t_add_def
      t_pow_def t_sub_def sqrt_169)

section \<open>The computations with an explicit size\<close>

lemma naive_assign_out:
  assumes "sizes u = [M, D]" "\<not> (i < M \<and> j < M)"
  shows "naive_assign r u result i j H = Inl IndexError"
  using assms
  by (auto simp: naive_assign_def select_def split: list.splits sum.splits)

lemma naive_row_fails:
  assumes u: "sizes u = [M, D]" "strides u = [s0, s1]" and N: "M < N"
    and H: "length h < length H"
  shows "for_range [0..<N] (\<lambda>j. naive_assign r u (contig (length h) [N, N]) 0 j) H =
         Inl IndexError"
proof -
  let ?body = "\<lambda>j. naive_assign r u (contig (length h) [N, N]) 0 j"
  have "\<exists>H'. for_range [0..<M] ?body H = Inr H' \<and> length h < length H'"
  proof (rule for_range_upt_inv [where I = "\<lambda>j H. length h < length H"])
    show "length h < length H" by (rule H)
  next
    fix j and H1 :: heap assume j: "j < M" and H1: "length h < length H1"
    have "?body j H1 =
         Inr ((H1 @ [[euclidean_distance r (point H1 u 0) (point H1 u j)],
                    [t_mul r (- 0.25) (euclidean_distance r (point H1 u 0) (point H1 u j))],
                    [affinity r (point H1 u 0) (point H1 u j)]])
              [length h := (H1 ! length h)[0 * N + j := affinity r (point H1 u 0) (point H1 u j)]])"
    proof (rule naive_assign_eq [OF u _ j _ _ H1])
      show "0 < M" "0 < N" "j < N" using j N by simp_all
    qed
    then show "\<exists>H'. ?body j H1 = Inr H' \<and> length h < length H'"
      using H1 by simp
  qed
  then obtain H' where H': "for_range [0..<M] ?body H = Inr H'"
    by blast
  have split: "[0..<N] = [0..<M] @ M # [Suc M..<N]"
  proof -
    have "[0..<M + (N - M)] = [0..<M] @ [M..<M + (N - M)]"
      by (rule upt_add_eq_append) simp
    with N show ?thesis by (simp add: upt_conv_Cons)
  qed
  have "?body M H' = Inl IndexError"
    by (rule naive_assign_out [OF u(1)]) simp
  then show ?thesis
    unfolding split by (simp add: for_range_append H')
qed

lemma naive_sized_fails:
  assumes "sizes u = [M, D]" "strides u = [s0, s1]" "M < N"
  shows "naive_sized r u N h = Inl IndexError"
proof -
  from assms(3) have "[0..<N] = 0 # [Suc 0..<N]"
    by (simp add: upt_conv_Cons)
  then have "for_range [0..<N]
      (\<lambda>i. for_range [0..<N] (\<lambda>j. naive_assign r u (contig (length h) [N, N]) i j))
      (h @ [replicate (N * N) 0]) =
    (case for_range [0..<N] (\<lambda>j. naive_assign r u (contig (length h) [N, N]) 0 j)
            (h @ [replicate (N * N) 0]) of
       Inl e \<Rightarrow> Inl e
     | Inr h' \<Rightarrow> for_range [Suc 0..<N]
         (\<lambda>i. for_range [0..<N] (\<lambda>j. naive_assign r u (contig (length h) [N, N]) i j)) h')"
    by (metis for_range.simps(2))
  also have "\<dots> = Inl IndexError"
    using naive_row_fails [OF assms, of h "h @ [replicate (N * N) 0]" r] by simp
  finally show ?thesis
    by (simp add: naive_sized_def zeros_eq)
qed

lemma for_range_first_fails:
  assumes "0 < N" "body 0 h = Inl e"
  shows "for_range [0..<N] body h = Inl e"
proof -
  from assms(1) have "[0..<N] = 0 # [Suc 0..<N]"
    by (simp add: upt_conv_Cons)
  with assms(2) show ?thesis by simp
qed

lemma one_dim_sized_shape_error:
  assumes "sizes u = [M, D]" "strides u = [s0, s1]" "0 < N" "N \<noteq> M" "2 \<le> M"
  shows "one_dim_vectorized_sized r u N h = Inl ShapeError"
proof -
  have "one_dim_row r u (contig (length h) [N, N]) 0 (h @ [replicate (N * N) 0]) = Inl ShapeError"
    using assms by (intro one_dim_row_mismatch [OF assms(1,2)]) simp_all
  with assms(3) have "for_range [0..<N] (one_dim_row r u (contig (length h) [N, N]))
      (h @ [replicate (N * N) 0]) = Inl ShapeError"
    by (rule for_range_first_fails)
  then show ?thesis
    by (simp add: one_dim_vectorized_sized_def zeros_eq)
qed

lemma one_dim_row_out:
  assumes "sizes u = [M, D]" "\<not> i < M"
  shows "one_dim_row r u result i H = Inl IndexError"
  using assms
  by (auto simp: one_dim_row_def select_def split: list.splits sum.splits)

lemma one_dim_row_broadcast:
  assumes "sizes u = [Suc 0, D]" "strides u = [s0, s1]" "0 < N"
  shows "\<exists>H'. one_dim_row r u (contig a [N, N]) 0 H = Inr H'"
  unfolding one_dim_row_pipeline [OF assms(1,2) zero_less_Suc]
  using assms(3) by (simp add: setitem_row_def select_def copy_into_def bshape_def)

lemma one_dim_sized_index_error:
  assumes "sizes u = [M, D]" "strides u = [s0, s1]" "M < N" "M \<le> 1"
  shows "one_dim_vectorized_sized r u N h = Inl IndexError"
proof (cases "M = 0")
  case True
  have "one_dim_row r u (contig (length h) [N, N]) 0 (h @ [replicate (N * N) 0]) = Inl IndexError"
    by (rule one_dim_row_out [OF assms(1)]) (simp add: True)
  moreover from assms(3) have "0 < N" by simp
  ultimately have "for_range [0..<N] (one_dim_row r u (contig (length h) [N, N]))
      (h @ [replicate (N * N) 0]) = Inl IndexError"
    by (rule for_range_first_fails [rotated])
  then show ?thesis
    by (simp add: one_dim_vectorized_sized_def zeros_eq)
next
  case False
  with assms(4) have M: "M = Suc 0" by simp
  with assms(3) have split: "[0..<N] = 0 # Suc 0 # [Suc (Suc 0)..<N]"
    by (simp add: upt_conv_Cons)
  from one_dim_row_broadcast [OF assms(1) [unfolded M] assms(2), of N r "length h"
      "h @ [replicate (N * N) 0]"] assms(3)
  obtain H' where H': "one_dim_row r u (contig (length h) [N, N]) 0 (h @ [replicate (N * N) 0]) = Inr H'"
    by auto
  have "one_dim_row r u (contig (length h) [N, N]) (Suc 0) H' = Inl IndexError"
    by (rule one_dim_row_out [OF assms(1)]) (simp add: M)
  with H' show ?thesis
    by (simp add: one_dim_vectorized_sized_def zeros_eq split)
qed

lemma one_dim_sized_ok:
  assumes "sizes u = [N, D]" "strides u = [s0, s1]" "stor u < length h"
  shows "\<exists>H'. one_dim_vectorized_sized r u N h = Inr (contig (length h) [N, N], H') \<and>
          length h < length H' \<and> take (length h) H' = h \<and>
          H' ! length h = affinities r h u N"
  using one_dim_loop [OF assms, of r]
  by (auto simp: one_dim_vectorized_sized_def zeros_eq)

lemma one_dim_sized_zero:
  "returned (one_dim_vectorized_sized r u 0 h) = Some ([0, 0], [])"
  by (simp add: one_dim_vectorized_sized_def zeros_eq returned_def contents_def indices.simps)

lemma fully_vectorized_sized_eq: "fully_vectorized_sized r u N h = fully_vectorized r u h"
  by (simp add: fully_vectorized_sized_def fully_vectorized_def)

section \<open>The three computations on a point with an infinite coordinate\<close>

text \<open>The computations are run step by step on the points \<open>(0, 0)\<close> and \<open>(inf, 0)\<close>; each
  lemma gives the returned handle and the whole final store.\<close>

lemma shape0_two: "shape0 u_two = Inr 2"
  by (simp add: shape0_def u_two_def)

lemma upt_two: "[0..<2] = [0, 1]"
  by (simp add: numeral_2_eq_2)

lemma x_zeros_inf:
  "x_zeros [2, 2] h_inf =
     (\<lparr>stor = 1, offs = 0, sizes = [2, 2], strides = [2, 1]\<rparr>,
      [[Fin 0, Fin 0, PInf, Fin 0], [Fin 0, Fin 0, Fin 0, Fin 0]])"
  by (simp add: x_zeros_def x_alloc_def h_inf_def numeral_2_eq_2)

lemmas x_eval =
  select_def bshape_def bidx_def pos_def x_get_at_def x_alloc_def x_copy_into_def
  x_unary_def x_inplace_def x_pow_inplace_def x_sqrt_inplace_def x_mul_inplace_def
  x_exp_inplace_def x_scalar_mul_def x_torch_exp_def
  u_two_def indices.simps numeral_2_eq_2

lemma x_naive_inf:
  "x_naive u_two h_inf =
     Inr (\<lparr>stor = 1, offs = 0, sizes = [2, 2], strides = [2, 1]\<rparr>,
          [[Fin 0, Fin 0, PInf, Fin 0], [Fin 1, Fin 0, Fin 0, NaN],
           [Fin 0], [Fin 0], [Fin 1], [PInf], [NInf], [Fin 0],
           [PInf], [NInf], [Fin 0], [NaN], [NaN], [NaN]])"
proof -
  let ?R = "\<lparr>stor = 1, offs = 0, sizes = [2, 2], strides = [2, 1]\<rparr>"
  let ?U = "[Fin 0, Fin 0, PInf, Fin 0]"
  have a: "x_naive_assign u_two ?R 0 0 [?U, [Fin 0, Fin 0, Fin 0, Fin 0]] =
           Inr [?U, [Fin 1, Fin 0, Fin 0, Fin 0], [Fin 0], [Fin 0], [Fin 1]]"
    by (simp add: x_naive_assign_def x_torch_dist_def x_setitem2_def x_eval)
  have b: "x_naive_assign u_two ?R 0 1
             [?U, [Fin 1, Fin 0, Fin 0, Fin 0], [Fin 0], [Fin 0], [Fin 1]] =
           Inr [?U, [Fin 1, Fin 0, Fin 0, Fin 0], [Fin 0], [Fin 0], [Fin 1],
                [PInf], [NInf], [Fin 0]]"
    by (simp add: x_naive_assign_def x_torch_dist_def x_setitem2_def x_eval)
  have c: "x_naive_assign u_two ?R 1 0
             [?U, [Fin 1, Fin 0, Fin 0, Fin 0], [Fin 0], [Fin 0], [Fin 1],
              [PInf], [NInf], [Fin 0]] =
           Inr [?U, [Fin 1, Fin 0, Fin 0, Fin 0], [Fin 0], [Fin 0], [Fin 1],
                [PInf], [NInf], [Fin 0], [PInf], [NInf], [Fin 0]]"
    by (simp add: x_naive_assign_def x_torch_dist_def x_setitem2_def x_eval)
  have d: "x_naive_assign u_two ?R 1 1
             [?U, [Fin 1, Fin 0, Fin 0, Fin 0], [Fin 0], [Fin 0], [Fin 1],
              [PInf], [NInf], [Fin 0], [PInf], [NInf], [Fin 0]] =
           Inr [?U, [Fin 1, Fin 0, Fin 0, NaN], [Fin 0], [Fin 0], [Fin 1],
                [PInf], [NInf], [Fin 0], [PInf], [NInf], [Fin 0], [NaN], [NaN], [NaN]]"
    by (simp add: x_naive_assign_def x_torch_dist_def x_setitem2_def x_eval)
  show ?thesis
    unfolding x_naive_def shape0_two sum.case x_zeros_inf prod.case upt_two x_for_range.simps
      a b c d
    by (rule refl)
qed

lemma x_one_dim_vectorized_inf:
  "x_one_dim_vectorized u_two h_inf =
     Inr (\<lparr>stor = 1, offs = 0, sizes = [2, 2], strides = [2, 1]\<rparr>,
          [[Fin 0, Fin 0, PInf, Fin 0], [Fin 1, Fin 0, Fin 0, NaN],
           [Fin 0, Fin 0, PInf, Fin 0], [Fin 1, Fin 0],
           [PInf, Fin 0, NaN, Fin 0], [Fin 0, NaN]])"
proof -
  let ?R = "\<lparr>stor = 1, offs = 0, sizes = [2, 2], strides = [2, 1]\<rparr>"
  let ?U = "[Fin 0, Fin 0, PInf, Fin 0]"
  have a: "x_one_dim_row u_two ?R 0 [?U, [Fin 0, Fin 0, Fin 0, Fin 0]] =
           Inr [?U, [Fin 1, Fin 0, Fin 0, Fin 0], [Fin 0, Fin 0, PInf, Fin 0], [Fin 1, Fin 0]]"
    by (simp add: x_one_dim_row_def x_sub_tensor_def x_sum_dim_def x_setitem_row_def x_eval)
  have b: "x_one_dim_row u_two ?R 1
             [?U, [Fin 1, Fin 0, Fin 0, Fin 0], [Fin 0, Fin 0, PInf, Fin 0], [Fin 1, Fin 0]] =
           Inr [?U, [Fin 1, Fin 0, Fin 0, NaN], [Fin 0, Fin 0, PInf, Fin 0], [Fin 1, Fin 0],
                [PInf, Fin 0, NaN, Fin 0], [Fin 0, NaN]]"
    by (simp add: x_one_dim_row_def x_sub_tensor_def x_sum_dim_def x_setitem_row_def x_eval)
  show ?thesis
    unfolding x_one_dim_vectorized_def shape0_two sum.case x_zeros_inf prod.case upt_two
      x_for_range.simps a b
    by (rule refl)
qed

lemma x_fully_vectorized_inf:
  "x_fully_vectorized u_two h_inf =
     Inr (\<lparr>stor = 2, offs = 0, sizes = [2, 2], strides = [2, 1]\<rparr>,
          [[Fin 0, Fin 0, PInf, Fin 0],
           [Fin 0, Fin 0, PInf, Fin 0, PInf, Fin 0, NaN, Fin 0],
           [Fin 1, Fin 0, Fin 0, NaN]])"
  by (simp add: x_fully_vectorized_def reshape1_def permute_def x_sub_tensor_def x_sum_dim_def
      x_eval h_inf_def numeral_3_eq_3)

section \<open>The claims\<close>

text \<open>
  In every statement \<open>h\<close> is the store before the call and \<open>u\<close> a well-formed handle in it;
  \<open>returned\<close> is the shape and the elements of the tensor a call returns, \<open>entry\<close> one
  element of it, and both are \<open>None\<close> when the call raises.
\<close>

text \<open>
  Claim C1, that the three results are equal bit for bit, has no theorem here. Whether
  \<open>naive\<close> returns the very elements of the two vectorized computations depends on how
  the library rounds inside \<open>torch.dist\<close> and on the element type of \<open>torch.zeros\<close>, and
  the model leaves both out.
\<close>

text \<open>
  Claim C2. For a point set \<open>u\<close> of shape \<open>N \<times> 2\<close>, \<open>naive\<close> returns an \<open>N \<times> N\<close> matrix whose
  entry \<open>(i, j)\<close> is \<open>exp (- 0.25 * d)\<close>, where \<open>d\<close> is the square root of the sum of the two
  squared coordinate differences of the points \<open>i\<close> and \<open>j\<close>, each operation rounded by \<open>r\<close>.
\<close>

theorem naive_entry:
  assumes "wf_tensor h u" "sizes u = [N, 2]" "i < N" "j < N"
  shows "map_option fst (returned (naive r u h)) = Some [N, N] \<and>
         entry (naive r u h) i j =
           Some (t_exp r (t_mul r (- 0.25) (t_sqrt r
             (t_add r (t_pow r 2 (t_sub r (get_at h u [i, 0]) (get_at h u [j, 0])))
                      (t_pow r 2 (t_sub r (get_at h u [i, 1]) (get_at h u [j, 1])))))))"
proof -
  from assms(1,2) obtain A H where A: "naive r u h = Inr (A, H)"
    "contents H A = ([N, N], affinities r h u N)"
    "\<And>i j. i < N \<Longrightarrow> j < N \<Longrightarrow> get_at H A [i, j] = affinity r (point h u i) (point h u j)"
    by (rule naive_result [where r = r]) blast
  from A(3) [OF assms(3,4)] have "get_at H A [i, j] =
      t_exp r (t_mul r (- 0.25) (t_sqrt r
             (t_add r (t_pow r 2 (t_sub r (get_at h u [i, 0]) (get_at h u [j, 0])))
                      (t_pow r 2 (t_sub r (get_at h u [i, 1]) (get_at h u [j, 1]))))))"
    by (simp only: point_pair [OF assms(2)] affinity_pair)
  with A(1,2) show ?thesis
    by (simp add: returned_Inr entry_Inr)
qed

theorem naive_entry_witness:
  "map_option fst (returned (naive (\<lambda>x. x) u_two h_two)) = Some [2, 2] \<and>
   entry (naive (\<lambda>x. x) u_two h_two) 0 1 = Some (exp (- 1))"
proof -
  have "sizes u_two = [2, 2]" "(0::nat) < 2" "(1::nat) < 2" by (simp_all add: u_two_def)
  from naive_entry [OF wf_two this, of "\<lambda>x. x"] show ?thesis
    by (simp add: t_exp_def t_mul_def t_sqrt_def t_add_def t_pow_def t_sub_def get_at_def
        pos_def u_two_def h_two_def)
qed

text \<open>
  Claim C3. For a point set of shape \<open>N \<times> 2\<close> and an arithmetic in which 0 and 1 are exact,
  every diagonal entry of the result of each of the three computations is exactly 1; for
  \<open>N = 1\<close> the result is the \<open>1 \<times> 1\<close> matrix with the single entry 1.
\<close>

theorem diagonal_one:
  assumes "wf_tensor h u" "sizes u = [N, 2]" "r 0 = 0" "r 1 = 1" "i < N"
  shows "entry (naive r u h) i i = Some 1 \<and>
         entry (one_dim_vectorized r u h) i i = Some 1 \<and>
         entry (fully_vectorized r u h) i i = Some 1 \<and>
         (N = 1 \<longrightarrow> returned (naive r u h) = Some ([1, 1], [1]) \<and>
                  returned (one_dim_vectorized r u h) = Some ([1, 1], [1]) \<and>
                  returned (fully_vectorized r u h) = Some ([1, 1], [1]))"
proof -
  have d: "affinity r (point h u k) (point h u k) = 1" for k
    by (simp only: point_pair [OF assms(2)] affinity_self [OF assms(3,4)])
  have "affinities r h u 1 = [1]"
    by (simp add: affinities_def indices_11 d)
  with entries [OF assms(1,2,5,5), of r] returns [OF assms(1,2), of r] show ?thesis
    by (simp add: d)
qed

theorem diagonal_one_witness:
  "entry (naive (\<lambda>x. x) u_one h_one) 0 0 = Some 1 \<and>
   entry (one_dim_vectorized (\<lambda>x. x) u_one h_one) 0 0 = Some 1 \<and>
   entry (fully_vectorized (\<lambda>x. x) u_one h_one) 0 0 = Some 1 \<and>
   returned (naive (\<lambda>x. x) u_one h_one) = Some ([1, 1], [1]) \<and>
   returned (one_dim_vectorized (\<lambda>x. x) u_one h_one) = Some ([1, 1], [1]) \<and>
   returned (fully_vectorized (\<lambda>x. x) u_one h_one) = Some ([1, 1], [1])"
proof -
  have "sizes u_one = [1, 2]" by (simp add: u_one_def)
  from diagonal_one [OF wf_one this, of "\<lambda>x. x" 0] show ?thesis
    by simp
qed

text \<open>
  Claim C4 says that the matrix returned by each computation is exactly symmetric for
  every point set. As stated it fails for a point with an infinite coordinate. For the
  points \<open>(0, 0)\<close> and \<open>(inf, 0)\<close> the difference of the second point and itself has the
  coordinate \<open>inf - inf\<close>, which is NaN, and every later step keeps it: the entry \<open>(1, 1)\<close>
  of each of the three results is NaN, and NaN is not equal to itself.
\<close>

theorem nan_entry_counterexample:
  "x_entry (x_naive u_two h_inf) 1 1 = Some NaN \<and>
   x_entry (x_one_dim_vectorized u_two h_inf) 1 1 = Some NaN \<and>
   x_entry (x_fully_vectorized u_two h_inf) 1 1 = Some NaN \<and>
   \<not> x_eq NaN NaN"
  unfolding x_naive_inf x_one_dim_vectorized_inf x_fully_vectorized_inf
  by (simp add: x_entry_def x_get_at_def pos_def)

text \<open>
  Claim C4, amended. For a point set of shape \<open>N \<times> 2\<close> with finite coordinates and a rounding
  that commutes with negation, the matrix returned by each of the three computations is
  exactly symmetric: the entries \<open>(i, j)\<close> and \<open>(j, i)\<close> are equal.
\<close>

theorem symmetric:
  assumes "wf_tensor h u" "sizes u = [N, 2]" "\<And>x. r (- x) = - r x" "i < N" "j < N"
  shows "(\<exists>x. entry (naive r u h) i j = Some x \<and> entry (naive r u h) j i = Some x) \<and>
         (\<exists>x. entry (one_dim_vectorized r u h) i j = Some x \<and>
              entry (one_dim_vectorized r u h) j i = Some x) \<and>
         (\<exists>x. entry (fully_vectorized r u h) i j = Some x \<and>
              entry (fully_vectorized r u h) j i = Some x)"
proof -
  have "affinity r (point h u i) (point h u j) = affinity r (point h u j) (point h u i)"
    unfolding point_pair [OF assms(2)] by (rule affinity_sym) (rule assms(3))
  with entries [OF assms(1,2,4,5), of r] entries [OF assms(1,2,5,4), of r] show ?thesis
    by simp
qed

theorem symmetric_witness:
  "(\<exists>x. entry (naive (\<lambda>x. x) u_two h_two) 0 1 = Some x \<and>
        entry (naive (\<lambda>x. x) u_two h_two) 1 0 = Some x) \<and>
   (\<exists>x. entry (one_dim_vectorized (\<lambda>x. x) u_two h_two) 0 1 = Some x \<and>
        entry (one_dim_vectorized (\<lambda>x. x) u_two h_two) 1 0 = Some x) \<and>
   (\<exists>x. entry (fully_vectorized (\<lambda>x. x) u_two h_two) 0 1 = Some x \<and>
        entry (fully_vectorized (\<lambda>x. x) u_two h_two) 1 0 = Some x)"
proof -
  have "sizes u_two = [2, 2]" by (simp add: u_two_def)
  from symmetric [OF wf_two this, of "\<lambda>x. x" 0 1] show ?thesis
    by simp
qed

text \<open>
  Claim C5 says that every entry is strictly greater than 0 and at most 1. As stated it
  fails where \<open>exp\<close> underflows. With the rounding \<open>flush\<close> and the points \<open>(0, 0)\<close> and
  \<open>(1000, 0)\<close> every intermediate value (\<open>-1000\<close>, \<open>1000000\<close>, \<open>1000\<close>, \<open>-250\<close>) is kept as it
  is, as in single precision, and \<open>exp (-250)\<close> is rounded to 0: the entry \<open>(0, 1)\<close> of each
  of the three results is 0.
\<close>

theorem entry_underflows_counterexample:
  "entry (naive flush u_far h_far) 0 1 = Some 0 \<and>
   entry (one_dim_vectorized flush u_far h_far) 0 1 = Some 0 \<and>
   entry (fully_vectorized flush u_far h_far) 0 1 = Some 0"
proof -
  have "sizes u_far = [2, 2]" "(0::nat) < 2" "(1::nat) < 2"
    by (simp_all add: u_far_def)
  from entries [OF wf_far this, of flush] show ?thesis
    by (simp only: point_far affinity_far)
qed

text \<open>
  Claim C5, amended. For a point set of shape \<open>N \<times> 2\<close> and a monotone rounding in which 0
  and 1 are exact, every entry of the result of each of the three computations lies in the
  closed interval from 0 to 1; it is strictly positive when the rounding maps no positive
  number to 0.
\<close>

theorem entries_in_unit_interval:
  assumes "wf_tensor h u" "sizes u = [N, 2]" "mono r" "r 0 = 0" "r 1 = 1" "i < N" "j < N"
  shows "\<exists>x. entry (naive r u h) i j = Some x \<and>
             entry (one_dim_vectorized r u h) i j = Some x \<and>
             entry (fully_vectorized r u h) i j = Some x \<and>
             0 \<le> x \<and> x \<le> 1 \<and> ((\<forall>y. 0 < y \<longrightarrow> 0 < r y) \<longrightarrow> 0 < x)"
proof -
  have "0 \<le> affinity r (point h u i) (point h u j) \<and> affinity r (point h u i) (point h u j) \<le> 1"
    unfolding point_pair [OF assms(2)] by (rule affinity_range [OF assms(3,4,5)])
  moreover have "(\<forall>y. 0 < y \<longrightarrow> 0 < r y) \<longrightarrow> 0 < affinity r (point h u i) (point h u j)"
    using affinity_pos [of r] by blast
  ultimately show ?thesis
    using entries [OF assms(1,2,6,7), of r] by blast
qed

theorem entries_in_unit_interval_witness:
  "\<exists>x. entry (naive flush u_far h_far) 0 1 = Some x \<and>
       entry (one_dim_vectorized flush u_far h_far) 0 1 = Some x \<and>
       entry (fully_vectorized flush u_far h_far) 0 1 = Some x \<and> 0 \<le> x \<and> x \<le> 1"
proof -
  have "sizes u_far = [2, 2]" "flush 0 = 0" "flush 1 = 1" "(0::nat) < 2" "(1::nat) < 2"
    by (simp_all add: u_far_def flush_zero flush_big)
  from entries_in_unit_interval [OF wf_far this(1) flush_mono this(2-)] show ?thesis
    by blast
qed

text \<open>
  Claim C6. For the empty point set, of shape \<open>0 \<times> 2\<close>, each of the three computations
  returns a \<open>0 \<times> 0\<close> matrix and raises no error.
\<close>

theorem empty_input:
  assumes "wf_tensor h u" "sizes u = [0, 2]"
  shows "returned (naive r u h) = Some ([0, 0], []) \<and>
         returned (one_dim_vectorized r u h) = Some ([0, 0], []) \<and>
         returned (fully_vectorized r u h) = Some ([0, 0], [])"
proof -
  have e: "affinities r h u 0 = []"
    using length_affinities [of r h u 0] by simp
  from assms obtain A H where "naive r u h = Inr (A, H)"
    "contents H A = ([0, 0], affinities r h u 0)"
    by (rule naive_result [where r = r])
  moreover from assms obtain B H' where "one_dim_vectorized r u h = Inr (B, H')"
    "contents H' B = ([0, 0], affinities r h u 0)"
    by (rule one_dim_vectorized_result [where r = r])
  moreover from assms obtain C H'' where "fully_vectorized r u h = Inr (C, H'')"
    "contents H'' C = ([0, 0], affinities r h u 0)"
    by (rule fully_vectorized_result [where r = r])
  ultimately show ?thesis
    by (simp add: returned_Inr e)
qed

theorem empty_input_witness:
  "returned (naive (\<lambda>x. x) u_empty h_empty) = Some ([0, 0], []) \<and>
   returned (one_dim_vectorized (\<lambda>x. x) u_empty h_empty) = Some ([0, 0], []) \<and>
   returned (fully_vectorized (\<lambda>x. x) u_empty h_empty) = Some ([0, 0], [])"
proof -
  have "sizes u_empty = [0, 2]" by (simp add: u_empty_def)
  with wf_empty show ?thesis by (rule empty_input)
qed

text \<open>
  Claim C7 says that an input whose points do not have exactly 2 coordinates makes each
  computation fail with an error. As stated it fails: no computation checks the number of
  coordinates. For the two points \<open>(0, 0, 0)\<close> and \<open>(3, 4, 12)\<close>, at distance 13, each of the
  three returns the \<open>2 \<times> 2\<close> matrix of \<open>exp (- 0.25 * distance)\<close>.
\<close>

theorem three_coordinates_counterexample:
  "returned (naive (\<lambda>x. x) u_three h_three) =
     Some ([2, 2], [1, exp (- (13 / 4)), exp (- (13 / 4)), 1]) \<and>
   returned (one_dim_vectorized (\<lambda>x. x) u_three h_three) =
     Some ([2, 2], [1, exp (- (13 / 4)), exp (- (13 / 4)), 1]) \<and>
   returned (fully_vectorized (\<lambda>x. x) u_three h_three) =
     Some ([2, 2], [1, exp (- (13 / 4)), exp (- (13 / 4)), 1])"
proof -
  have s: "sizes u_three = [2, 3]" by (simp add: u_three_def)
  have "affinities (\<lambda>x. x) h_three u_three 2 = [1, exp (- (13 / 4)), exp (- (13 / 4)), 1]"
    by (simp add: affinities_def indices_22 point_three affinity_three)
  with returns [OF wf_three s, of "\<lambda>x. x"] show ?thesis
    by simp
qed

text \<open>
  Claim C7, amended. For an input of shape \<open>N \<times> D\<close>, whatever \<open>D\<close> is, each of the three
  computations raises no error and returns the \<open>N \<times> N\<close> matrix whose entry \<open>(i, j)\<close> is the
  transform of the distance of the points \<open>i\<close> and \<open>j\<close> over their \<open>D\<close> coordinates.
\<close>

theorem any_coordinate_count:
  assumes "wf_tensor h u" "sizes u = [N, D]"
  shows "returned (naive r u h) =
           Some ([N, N], map (\<lambda>idx. affinity r (point h u (idx ! 0)) (point h u (idx ! 1)))
                           (indices [N, N])) \<and>
         returned (one_dim_vectorized r u h) =
           Some ([N, N], map (\<lambda>idx. affinity r (point h u (idx ! 0)) (point h u (idx ! 1)))
                           (indices [N, N])) \<and>
         returned (fully_vectorized r u h) =
           Some ([N, N], map (\<lambda>idx. affinity r (point h u (idx ! 0)) (point h u (idx ! 1)))
                           (indices [N, N]))"
  using returns [OF assms, of r] unfolding affinities_def .

theorem any_coordinate_count_witness:
  "returned (naive (\<lambda>x. x) u_three h_three) =
     Some ([2, 2], map (\<lambda>idx. affinity (\<lambda>x. x) (point h_three u_three (idx ! 0))
                                 (point h_three u_three (idx ! 1))) (indices [2, 2])) \<and>
   returned (one_dim_vectorized (\<lambda>x. x) u_three h_three) =
     Some ([2, 2], map (\<lambda>idx. affinity (\<lambda>x. x) (point h_three u_three (idx ! 0))
                                 (point h_three u_three (idx ! 1))) (indices [2, 2])) \<and>
   returned (fully_vectorized (\<lambda>x. x) u_three h_three) =
     Some ([2, 2], map (\<lambda>idx. affinity (\<lambda>x. x) (point h_three u_three (idx ! 0))
                                 (point h_three u_three (idx ! 1))) (indices [2, 2]))"
proof -
  have "sizes u_three = [2, 3]" by (simp add: u_three_def)
  with wf_three show ?thesis by (rule any_coordinate_count)
qed

text \<open>
  Claim C8. For two points \<open>(0, 0)\<close> and \<open>(4, 0)\<close>, the off-diagonal entries of the result of
  each of the three computations are the rounded \<open>exp (- 1)\<close>; for two coincident points
  \<open>(0, 0)\<close> and \<open>(0, 0)\<close> every entry is 1. The arithmetic is assumed exact on the values
  0, 1, -1, 4, -4 and 16, which the computation meets on the way.
\<close>

theorem known_values:
  assumes r: "r 0 = 0" "r 1 = 1" "r 4 = 4" "r (- 4) = - 4" "r 16 = 16" "r (- 1) = - 1"
    and u: "wf_tensor h u" "sizes u = [2, 2]" "point h u 0 = [0, 0]" "point h u 1 = [4, 0]"
    and u': "wf_tensor h' u'" "sizes u' = [2, 2]" "point h' u' 0 = [0, 0]" "point h' u' 1 = [0, 0]"
  shows "returned (naive r u h) = Some ([2, 2], [1, r (exp (- 1)), r (exp (- 1)), 1]) \<and>
         returned (one_dim_vectorized r u h) = Some ([2, 2], [1, r (exp (- 1)), r (exp (- 1)), 1]) \<and>
         returned (fully_vectorized r u h) = Some ([2, 2], [1, r (exp (- 1)), r (exp (- 1)), 1]) \<and>
         returned (naive r u' h') = Some ([2, 2], [1, 1, 1, 1]) \<and>
         returned (one_dim_vectorized r u' h') = Some ([2, 2], [1, 1, 1, 1]) \<and>
         returned (fully_vectorized r u' h') = Some ([2, 2], [1, 1, 1, 1])"
proof -
  have a: "affinity r [0, 0] [4, 0] = r (exp (- 1))" "affinity r [4, 0] [0, 0] = r (exp (- 1))"
    using r
    by (simp_all add: affinity_pair t_exp_def t_mul_def t_sqrt_def t_add_def t_pow_def t_sub_def
        sqrt_16)
  have p: "point h u (Suc 0) = [4, 0]" "point h' u' (Suc 0) = [0, 0]"
    using u(4) u'(4) by simp_all
  have "affinities r h u 2 = [1, r (exp (- 1)), r (exp (- 1)), 1]"
    by (simp add: affinities_def indices_22 u(3) p a affinity_self [OF r(1,2)])
  moreover have "affinities r h' u' 2 = [1, 1, 1, 1]"
    by (simp add: affinities_def indices_22 u'(3) p affinity_self [OF r(1,2)])
  ultimately show ?thesis
    using returns [OF u(1,2), of r] returns [OF u'(1,2), of r] by simp
qed

theorem known_values_witness:
  "returned (naive (\<lambda>x. x) u_two h_two) = Some ([2, 2], [1, exp (- 1), exp (- 1), 1]) \<and>
   returned (one_dim_vectorized (\<lambda>x. x) u_two h_two) = Some ([2, 2], [1, exp (- 1), exp (- 1), 1]) \<and>
   returned (fully_vectorized (\<lambda>x. x) u_two h_two) = Some ([2, 2], [1, exp (- 1), exp (- 1), 1]) \<and>
   returned (naive (\<lambda>x. x) u_same h_same) = Some ([2, 2], [1, 1, 1, 1]) \<and>
   returned (one_dim_vectorized (\<lambda>x. x) u_same h_same) = Some ([2, 2], [1, 1, 1, 1]) \<and>
   returned (fully_vectorized (\<lambda>x. x) u_same h_same) = Some ([2, 2], [1, 1, 1, 1])"
proof -
  have s: "sizes u_two = [2, 2]" "sizes u_same = [2, 2]"
    by (simp_all add: u_two_def u_same_def)
  show ?thesis
    by (rule known_values [of "\<lambda>x. x", OF refl refl refl refl refl refl wf_two s(1) point_two
          wf_same s(2) point_same])
qed

text \<open>
  Claim C9. Each of the three computations leaves its input unchanged: every storage that
  exists before the call, the one of \<open>u\<close> among them, has the same elements after it, so
  \<open>u\<close> reads the same. The operations that overwrite (\<open>pow_\<close>, \<open>sqrt_\<close>, \<open>mul_\<close>,
  \<open>exp_\<close>, and the assignments into \<open>result\<close>) only touch storages allocated during the
  call.
\<close>

theorem input_unchanged:
  assumes "wf_tensor h u" "sizes u = [N, 2]"
  shows "(\<exists>A H. naive r u h = Inr (A, H) \<and> take (length h) H = h \<and> contents H u = contents h u) \<and>
         (\<exists>A H. one_dim_vectorized r u h = Inr (A, H) \<and> take (length h) H = h \<and>
                 contents H u = contents h u) \<and>
         (\<exists>A H. fully_vectorized r u h = Inr (A, H) \<and> take (length h) H = h \<and>
                 contents H u = contents h u)"
proof -
  from assms(1) have u: "stor u < length h" by (simp add: wf_tensor_def)
  from assms obtain A H where "naive r u h = Inr (A, H)" "take (length h) H = h"
    by (rule naive_result [where r = r])
  moreover from assms obtain B H' where "one_dim_vectorized r u h = Inr (B, H')"
    "take (length h) H' = h"
    by (rule one_dim_vectorized_result [where r = r])
  moreover from assms obtain C H'' where "fully_vectorized r u h = Inr (C, H'')"
    "take (length h) H'' = h"
    by (rule fully_vectorized_result [where r = r])
  ultimately show ?thesis
    using contents_frame [OF _ u] by blast
qed

theorem input_unchanged_witness:
  "(\<exists>A H. naive (\<lambda>x. x) u_two h_two = Inr (A, H) \<and> take (length h_two) H = h_two \<and>
          contents H u_two = contents h_two u_two) \<and>
   (\<exists>A H. one_dim_vectorized (\<lambda>x. x) u_two h_two = Inr (A, H) \<and> take (length h_two) H = h_two \<and>
          contents H u_two = contents h_two u_two) \<and>
   (\<exists>A H. fully_vectorized (\<lambda>x. x) u_two h_two = Inr (A, H) \<and> take (length h_two) H = h_two \<and>
          contents H u_two = contents h_two u_two)"
proof -
  have "sizes u_two = [2, 2]" by (simp add: u_two_def)
  with wf_two show ?thesis by (rule input_unchanged)
qed

text \<open>
  Claim C10 says that \<open>naive(u, N)\<close> and \<open>one_dim_vectorized(u, N)\<close> of Etude1.ipynb, called
  with an \<open>N\<close> that is not the number of points, give a truncated result or an index error
  and never a shape error. As stated it fails for \<open>one_dim_vectorized\<close>: with two points and
  \<open>N = 1\<close> the row of two elements does not fit the row \<open>result[0, :]\<close> of one element, and
  the assignment raises a shape error.
\<close>

theorem one_dim_sized_counterexample:
  "one_dim_vectorized_sized (\<lambda>x. x) u_two 1 h_two = Inl ShapeError"
  by (rule one_dim_sized_shape_error [of u_two 2 2 2 1]) (simp_all add: u_two_def)

text \<open>
  Claim C10, amended. For \<open>u\<close> of shape \<open>M \<times> 2\<close>: \<open>fully_vectorized(u, N)\<close> does not depend on
  \<open>N\<close> and returns an \<open>M \<times> M\<close> matrix. \<open>naive(u, N)\<close> returns the \<open>N \<times> N\<close> matrix of the
  first \<open>N\<close> points when \<open>N \<le> M\<close> and raises an index error when \<open>M < N\<close>.
  \<open>one_dim_vectorized(u, N)\<close> returns the \<open>N \<times> N\<close> matrix when \<open>N = M\<close>, and the empty matrix
  when \<open>N = 0\<close>; for any other \<open>N\<close> it raises: a shape error when \<open>u\<close> has two points or
  more, an index error when it has one point or none.
\<close>

theorem sized_variants:
  assumes "wf_tensor h u" "sizes u = [M, 2]"
  shows "fully_vectorized_sized r u N h = fully_vectorized_sized r u N' h \<and>
         map_option fst (returned (fully_vectorized_sized r u N h)) = Some [M, M] \<and>
         (N \<le> M \<longrightarrow>
            returned (naive_sized r u N h) =
              Some ([N, N], map (\<lambda>idx. affinity r (point h u (idx ! 0)) (point h u (idx ! 1)))
                              (indices [N, N]))) \<and>
         (M < N \<longrightarrow> naive_sized r u N h = Inl IndexError) \<and>
         (N = M \<longrightarrow>
            returned (one_dim_vectorized_sized r u N h) =
              Some ([N, N], map (\<lambda>idx. affinity r (point h u (idx ! 0)) (point h u (idx ! 1)))
                              (indices [N, N]))) \<and>
         (N = 0 \<longrightarrow> returned (one_dim_vectorized_sized r u N h) = Some ([0, 0], [])) \<and>
         (0 < N \<and> N \<noteq> M \<and> 2 \<le> M \<longrightarrow> one_dim_vectorized_sized r u N h = Inl ShapeError) \<and>
         (M < N \<and> M \<le> 1 \<longrightarrow> one_dim_vectorized_sized r u N h = Inl IndexError)"
proof -
  from assms obtain s0 s1 where s: "strides u = [s0, s1]" "stor u < length h"
    by (rule wf_tensor_2d)
  have 1: "fully_vectorized_sized r u N h = fully_vectorized_sized r u N' h"
    by (simp only: fully_vectorized_sized_eq)
  have 2: "map_option fst (returned (fully_vectorized_sized r u N h)) = Some [M, M]"
    using returns [OF assms, of r] by (simp add: fully_vectorized_sized_eq)
  have 3: "returned (naive_sized r u N h) = Some ([N, N], affinities r h u N)" if "N \<le> M"
    using naive_sized_ok [OF assms(2) s that, of r]
    by (auto simp: returned_Inr contents_affinities)
  have 4: "naive_sized r u N h = Inl IndexError" if "M < N"
    by (rule naive_sized_fails [OF assms(2) s(1) that])
  have 5: "returned (one_dim_vectorized_sized r u N h) = Some ([N, N], affinities r h u N)"
    if "N = M"
    using one_dim_sized_ok [OF assms(2) [folded that] s, of r]
    by (auto simp: returned_Inr contents_affinities)
  have 6: "returned (one_dim_vectorized_sized r u N h) = Some ([0, 0], [])" if "N = 0"
    unfolding that by (rule one_dim_sized_zero)
  have 7: "one_dim_vectorized_sized r u N h = Inl ShapeError" if "0 < N" "N \<noteq> M" "2 \<le> M"
    by (rule one_dim_sized_shape_error [OF assms(2) s(1) that])
  have 8: "one_dim_vectorized_sized r u N h = Inl IndexError" if "M < N" "M \<le> 1"
    by (rule one_dim_sized_index_error [OF assms(2) s(1) that])
  from 1 2 3 4 5 6 7 8 show ?thesis
    unfolding affinities_def by blast
qed

theorem sized_variants_witness:
  "fully_vectorized_sized (\<lambda>x. x) u_two 1 h_two = fully_vectorized_sized (\<lambda>x. x) u_two 5 h_two \<and>
   map_option fst (returned (fully_vectorized_sized (\<lambda>x. x) u_two 1 h_two)) = Some [2, 2] \<and>
   returned (naive_sized (\<lambda>x. x) u_two 1 h_two) =
     Some ([1, 1], map (\<lambda>idx. affinity (\<lambda>x. x) (point h_two u_two (idx ! 0))
                                 (point h_two u_two (idx ! 1))) (indices [1, 1])) \<and>
   one_dim_vectorized_sized (\<lambda>x. x) u_two 1 h_two = Inl ShapeError"
proof -
  have "sizes u_two = [2, 2]" by (simp add: u_two_def)
  note t = sized_variants [OF wf_two this, of "\<lambda>x. x" 1 5]
  have a: "fully_vectorized_sized (\<lambda>x. x) u_two 1 h_two =
           fully_vectorized_sized (\<lambda>x. x) u_two 5 h_two"
    by (rule t [THEN conjunct1])
  have b: "map_option fst (returned (fully_vectorized_sized (\<lambda>x. x) u_two 1 h_two)) = Some [2, 2]"
    by (rule t [THEN conjunct2, THEN conjunct1])
  have c: "returned (naive_sized (\<lambda>x. x) u_two 1 h_two) =
     Some ([1, 1], map (\<lambda>idx. affinity (\<lambda>x. x) (point h_two u_two (idx ! 0))
                                 (point h_two u_two (idx ! 1))) (indices [1, 1]))"
    using t [THEN conjunct2, THEN conjunct2, THEN conjunct1] by simp
  have d: "one_dim_vectorized_sized (\<lambda>x. x) u_two 1 h_two = Inl ShapeError"
    using t [THEN conjunct2, THEN conjunct2, THEN conjunct2, THEN conjunct2, THEN conjunct2,
        THEN conjunct2, THEN conjunct1] by simp
  from a b c d show ?thesis by (intro conjI)
qed

end
